theory Spec2Isabelle
  imports Complex_Main
begin

section \<open>The instrument session\<close>

text \<open>
  The Python class \<^verbatim>\<open>SpectrumAnalyzer\<close> drives a VISA resource \<^verbatim>\<open>self.sa\<close>. Exceptions are
  values of \<open>error\<close>; a function that may raise returns \<open>error + 'a\<close> with \<open>Inl\<close> the
  exception. \<^verbatim>\<open>UnicodeDecodeError\<close> is a subclass of \<^verbatim>\<open>ValueError\<close> and is not told apart.
  Python floats are idealised as reals: rounding, infinities and NaN are outside the model.
\<close>

datatype error =
    ValueError string
  | RuntimeError string
  | IndexError
  | AttributeError
  | OSError
  | VisaIOError string

text \<open>
  A SCPI command line. \<open>CmdNum p x s\<close> is the f-string \<^verbatim>\<open>f"{p}{x}{s}"\<close> with a float \<open>x\<close>,
  kept unrendered so that the number sent stays visible.
\<close>

datatype command = Cmd string | CmdNum string real string

text \<open>
  The VISA library and the instrument behind it are not part of the repository. They are the
  environment: \<open>pending\<close> lists what the transport will answer to the calls still to come,
  one entry per call (\<open>Ack\<close> for a write that goes through, \<open>Text\<close> for the line answering
  a query, \<open>Bytes\<close> for one fragment of raw input, \<open>Values\<close> for an unpacked binary block,
  \<open>Raise\<close> for a call that throws). An exhausted list is an instrument that has stopped
  answering: the call times out. An entry of the wrong kind is a transport fault.
  \<open>sent\<close> logs every command handed to the transport, with the timeout in force.
\<close>

datatype reply =
    Ack
  | Text string
  | Bytes string
  | Values "real list option"
  | Raise error

record resource =
  timeout :: int
  chunk_size :: "int option"
  pending :: "reply list"
  sent :: "(int \<times> command) list"

text \<open>
  \<open>sa\<close> is \<^verbatim>\<open>self.sa\<close> (\<open>None\<close> when disconnected). \<open>files\<close> is the local file system and
  \<open>denied\<close> the paths that cannot be opened for writing. \<open>printed\<close> keeps the one console
  line a caller can learn an error from: the closing line of \<^verbatim>\<open>capture_screen\<close>.
\<close>

record state =
  sa :: "resource option"
  files :: "string \<Rightarrow> string option"
  denied :: "string list"
  printed :: "error option list"

abbreviation timed_out :: error where
  "timed_out \<equiv> VisaIOError ''VI_ERROR_TMO''"

abbreviation unexpected :: error where
  "unexpected \<equiv> VisaIOError ''unexpected reply''"

abbreviation not_connected :: error where
  "not_connected \<equiv> ValueError ''Analyzer not connected''"

subsection \<open>Transport calls on the resource\<close>

definition log_cmd :: "command \<Rightarrow> resource \<Rightarrow> resource" where
  "log_cmd c r = r\<lparr>sent := sent r @ [(timeout r, c)]\<rparr>"

text \<open>What a call makes of the entry it is answered with.\<close>

fun expect_ack :: "reply \<Rightarrow> error + unit" where
  "expect_ack Ack = Inr ()"
| "expect_ack (Raise e) = Inl e"
| "expect_ack _ = Inl unexpected"

fun expect_text :: "reply \<Rightarrow> error + string" where
  "expect_text (Text s) = Inr s"
| "expect_text (Raise e) = Inl e"
| "expect_text _ = Inl unexpected"

fun expect_values :: "reply \<Rightarrow> error + real list option" where
  "expect_values (Values v) = Inr v"
| "expect_values (Raise e) = Inl e"
| "expect_values _ = Inl unexpected"

text \<open>One command handed to the transport and its answer taken from the head of \<open>pending\<close>.\<close>

definition exchange ::
  "(reply \<Rightarrow> error + 'a) \<Rightarrow> resource \<Rightarrow> command \<Rightarrow> (error + 'a) \<times> resource" where
  "exchange expect r c =
     (let r1 = log_cmd c r in
      case pending r1 of
        [] \<Rightarrow> (Inl timed_out, r1)
      | x # rest \<Rightarrow> (expect x, r1\<lparr>pending := rest\<rparr>))"

definition sa_write :: "resource \<Rightarrow> command \<Rightarrow> (error + unit) \<times> resource" where
  "sa_write = exchange expect_ack"

definition sa_query :: "resource \<Rightarrow> command \<Rightarrow> (error + string) \<times> resource" where
  "sa_query = exchange expect_text"

definition sa_query_binary_values ::
  "resource \<Rightarrow> command \<Rightarrow> (error + real list option) \<times> resource" where
  "sa_query_binary_values = exchange expect_values"

text \<open>
  \<^verbatim>\<open>read_bytes(count)\<close> never returns more than \<open>count\<close> bytes. The library's own call goes
  on reading until \<open>count\<close> bytes are in, or raises; the model admits more transports than
  that, the ones that hand over a short read as well: the head fragment is handed over, cut
  at \<open>count\<close>, and what was cut off stays at the head of the input. A count that is not
  positive reads nothing and touches nothing.
\<close>

definition sa_read_bytes :: "resource \<Rightarrow> int \<Rightarrow> (error + string) \<times> resource" where
  "sa_read_bytes r count =
     (if count \<le> 0 then (Inr [], r)
      else case pending r of
        [] \<Rightarrow> (Inl timed_out, r)
      | Bytes bs # rest \<Rightarrow>
          (if int (length bs) \<le> count then (Inr bs, r\<lparr>pending := rest\<rparr>)
           else (Inr (take (nat count) bs),
                 r\<lparr>pending := Bytes (drop (nat count) bs) # rest\<rparr>))
      | Raise e # rest \<Rightarrow> (Inl e, r\<lparr>pending := rest\<rparr>)
      | _ # rest \<Rightarrow> (Inl unexpected, r\<lparr>pending := rest\<rparr>))"

subsection \<open>Python's text helpers\<close>

definition is_space :: "char \<Rightarrow> bool" where
  "is_space c = (of_char c \<in> {9, 10, 11, 12, 13, 28, 29, 30, 31, 32, 133, 160 :: nat})"

definition strip :: "string \<Rightarrow> string" where
  "strip s = rev (dropWhile is_space (rev (dropWhile is_space s)))"

definition is_digit :: "char \<Rightarrow> bool" where
  "is_digit c = (48 \<le> (of_char c :: nat) \<and> (of_char c :: nat) \<le> 57)"

definition digit_val :: "char \<Rightarrow> int" where
  "digit_val c = int (of_char c) - 48"

text \<open>\<^verbatim>\<open>needle in hay\<close> on strings.\<close>

fun contains :: "string \<Rightarrow> string \<Rightarrow> bool" where
  "contains [] needle = (needle = [])"
| "contains (h # hay) needle =
     (take (length needle) (h # hay) = needle \<or> contains hay needle)"

abbreviation invalid_literal :: error where
  "invalid_literal \<equiv> ValueError ''invalid literal for int() with base 10''"

text \<open>\<^verbatim>\<open>int(chr(b))\<close> for one byte \<open>b\<close>: a number exactly for the ten ASCII digits.\<close>

definition int_of_chr :: "char \<Rightarrow> error + int" where
  "int_of_chr c = (if is_digit c then Inr (digit_val c) else Inl invalid_literal)"

text \<open>
  The digits after the first one, with Python's single underscores between digits.
\<close>

fun more_digits :: "int \<Rightarrow> string \<Rightarrow> int option" where
  "more_digits acc [] = Some acc"
| "more_digits acc (c # cs) =
     (if is_digit c then more_digits (acc * 10 + digit_val c) cs
      else if c = CHR ''_'' then
        (case cs of
           [] \<Rightarrow> None
         | d # ds \<Rightarrow> if is_digit d then more_digits (acc * 10 + digit_val d) ds else None)
      else None)"

definition unsigned_int :: "string \<Rightarrow> int option" where
  "unsigned_int s =
     (case s of
        [] \<Rightarrow> None
      | c # cs \<Rightarrow> if is_digit c then more_digits (digit_val c) cs else None)"

text \<open>
  The blanks \<^verbatim>\<open>int\<close> passes over around an ASCII numeral: tab to carriage return, and space.
\<close>

definition is_int_blank :: "char \<Rightarrow> bool" where
  "is_int_blank c = (of_char c \<in> {9, 10, 11, 12, 13, 32 :: nat})"

definition strip_int_blanks :: "string \<Rightarrow> string" where
  "strip_int_blanks s = rev (dropWhile is_int_blank (rev (dropWhile is_int_blank s)))"

text \<open>
  \<^verbatim>\<open>int(bs.decode())\<close> for received bytes: blanks around, one optional sign, decimal digits
  with single underscores between them. On ASCII input this is Python's result. With a byte
  from 0x80 up Python raises \<^verbatim>\<open>UnicodeDecodeError\<close>, or \<^verbatim>\<open>ValueError\<close>, or reads decimal digits
  from beyond ASCII; the model fails with \<open>ValueError\<close> throughout, and is not Python's
  result in the last case.
\<close>

definition int_of_bytes :: "string \<Rightarrow> error + int" where
  "int_of_bytes bs =
     (if \<exists>b \<in> set bs. 128 \<le> (of_char b :: nat) then Inl invalid_literal
      else
        (let t = strip_int_blanks bs;
             (sgn, u) = (case t of
                           [] \<Rightarrow> (1, t)
                         | c # cs \<Rightarrow> if c = CHR ''+'' then (1, cs)
                                      else if c = CHR ''-'' then (- 1, cs)
                                      else (1, t))
         in case unsigned_int u of
              None \<Rightarrow> Inl invalid_literal
            | Some v \<Rightarrow> Inr (sgn * v)))"

section \<open>Binary block decoder\<close>

text \<open>
  The accumulation loop of \<^verbatim>\<open>_read_ieee_block\<close>:
  \<^verbatim>\<open>while remaining: chunk = read_bytes(min(1_048_576, remaining)); ...\<close>
  Nothing bounds its iterations, so it is a partial function: \<open>None\<close> is a loop that
  never ends.
\<close>

partial_function (option) read_payload ::
  "resource \<Rightarrow> string \<Rightarrow> int \<Rightarrow> ((error + string) \<times> resource) option" where
  "read_payload r data remaining =
     (if remaining = 0 then Some (Inr data, r)
      else (case sa_read_bytes r (min 1048576 remaining) of
              (Inl e, r') \<Rightarrow> Some (Inl e, r')
            | (Inr chunk, r') \<Rightarrow>
                read_payload r' (data @ chunk) (remaining - int (length chunk))))"

abbreviation not_ieee :: error where
  "not_ieee \<equiv> RuntimeError ''Not an IEEE block''"

definition read_ieee_block_sa :: "resource \<Rightarrow> ((error + string) \<times> resource) option" where
  "read_ieee_block_sa r =
     (case sa_read_bytes r 2 of
        (Inl e, r1) \<Rightarrow> Some (Inl e, r1)
      | (Inr hdr, r1) \<Rightarrow>
          (if hdr = [] \<or> hd hdr \<noteq> CHR ''#'' then Some (Inl not_ieee, r1)
           else if length hdr < 2 then Some (Inl IndexError, r1)
           else case int_of_chr (hdr ! 1) of
             Inl e \<Rightarrow> Some (Inl e, r1)
           | Inr n_digits \<Rightarrow>
               (case sa_read_bytes r1 n_digits of
                  (Inl e, r2) \<Rightarrow> Some (Inl e, r2)
                | (Inr len_str, r2) \<Rightarrow>
                    (case int_of_bytes len_str of
                       Inl e \<Rightarrow> Some (Inl e, r2)
                     | Inr total_bytes \<Rightarrow> read_payload r2 [] total_bytes))))"

text \<open>
  \<^verbatim>\<open>_read_ieee_block\<close> reaches for \<^verbatim>\<open>self.sa.read_bytes\<close> without a connection check: on a
  disconnected object that is an \<^verbatim>\<open>AttributeError\<close>.
\<close>

definition read_ieee_block :: "state \<Rightarrow> ((error + string) \<times> state) option" where
  "read_ieee_block st =
     (case sa st of
        None \<Rightarrow> Some (Inl AttributeError, st)
      | Some r \<Rightarrow>
          (case read_ieee_block_sa r of
             None \<Rightarrow> None
           | Some (res, r') \<Rightarrow> Some (res, st\<lparr>sa := Some r'\<rparr>)))"


section \<open>Command/query channel\<close>

text \<open>\<^verbatim>\<open>write\<close>, \<^verbatim>\<open>query\<close>, \<^verbatim>\<open>query_binary_values\<close> and \<^verbatim>\<open>wait_for_opc\<close> of the class.\<close>

definition write_cmd :: "command \<Rightarrow> state \<Rightarrow> (error + unit) \<times> state" where
  "write_cmd cmd st =
     (case sa st of
        None \<Rightarrow> (Inl not_connected, st)
      | Some r \<Rightarrow> (case sa_write r cmd of (res, r') \<Rightarrow> (res, st\<lparr>sa := Some r'\<rparr>)))"

definition query :: "command \<Rightarrow> state \<Rightarrow> (error + string) \<times> state" where
  "query cmd st =
     (case sa st of
        None \<Rightarrow> (Inl not_connected, st)
      | Some r \<Rightarrow>
          (case sa_query r cmd of
             (Inl e, r') \<Rightarrow> (Inl e, st\<lparr>sa := Some r'\<rparr>)
           | (Inr resp, r') \<Rightarrow> (Inr (strip resp), st\<lparr>sa := Some r'\<rparr>)))"

definition query_binary_values ::
  "command \<Rightarrow> state \<Rightarrow> (error + real list option) \<times> state" where
  "query_binary_values cmd st =
     (case sa st of
        None \<Rightarrow> (Inl not_connected, st)
      | Some r \<Rightarrow>
          (case sa_query_binary_values r cmd of (res, r') \<Rightarrow> (res, st\<lparr>sa := Some r'\<rparr>)))"

definition wait_for_opc :: "state \<Rightarrow> (error + unit) \<times> state" where
  "wait_for_opc st = (case query (Cmd ''*OPC?'') st of (res, st') \<Rightarrow> (map_sum id (\<lambda>_. ()) res, st'))"

definition get_center_frequency :: "state \<Rightarrow> (error + string) \<times> state" where
  "get_center_frequency = query (Cmd ''FREQ:CENT?'')"

definition get_span :: "state \<Rightarrow> (error + string) \<times> state" where
  "get_span = query (Cmd ''FREQ:SPAN?'')"

subsection \<open>Control flow\<close>

text \<open>One statement after another: an exception ends the sequence.\<close>

definition and_then ::
  "(state \<Rightarrow> (error + 'a) \<times> state) \<Rightarrow> ('a \<Rightarrow> state \<Rightarrow> (error + 'b) \<times> state) \<Rightarrow>
   state \<Rightarrow> (error + 'b) \<times> state" where
  "and_then m f st = (case m st of (Inl e, st') \<Rightarrow> (Inl e, st') | (Inr a, st') \<Rightarrow> f a st')"

text \<open>\<^verbatim>\<open>try: return body  except Exception: return None\<close>\<close>

definition none_on_error ::
  "(state \<Rightarrow> (error + 'a) \<times> state) \<Rightarrow> state \<Rightarrow> (error + 'a option) \<times> state" where
  "none_on_error body st =
     (case body st of (Inl e, st') \<Rightarrow> (Inr None, st') | (Inr v, st') \<Rightarrow> (Inr (Some v), st'))"

text \<open>\<^verbatim>\<open>try: body  except Exception: print(...)\<close>, the sequence going on either way.\<close>

definition warn_on_error ::
  "(state \<Rightarrow> (error + 'a) \<times> state) \<Rightarrow> state \<Rightarrow> (error + unit) \<times> state" where
  "warn_on_error body st = (case body st of (_, st') \<Rightarrow> (Inr (), st'))"

definition set_timeout :: "int \<Rightarrow> state \<Rightarrow> state" where
  "set_timeout t st = st\<lparr>sa := map_option (\<lambda>r. r\<lparr>timeout := t\<rparr>) (sa st)\<rparr>"

definition set_chunk_size :: "int \<Rightarrow> state \<Rightarrow> state" where
  "set_chunk_size c st = st\<lparr>sa := map_option (\<lambda>r. r\<lparr>chunk_size := Some c\<rparr>) (sa st)\<rparr>"

section \<open>Measurement engine\<close>

definition get_current_high_peak :: "state \<Rightarrow> (error + string option) \<times> state" where
  "get_current_high_peak =
     none_on_error
       (and_then (write_cmd (Cmd ''CALC:MARK:MAX'')) (\<lambda>_. query (Cmd ''CALC:MARK:Y?'')))"

definition get_current_low_peak :: "state \<Rightarrow> (error + string option) \<times> state" where
  "get_current_low_peak =
     none_on_error
       (and_then (write_cmd (Cmd ''CALC:MARK:MIN'')) (\<lambda>_. query (Cmd ''CALC:MARK:Y?'')))"

text \<open>The body of the \<^verbatim>\<open>try\<close> of \<^verbatim>\<open>get_band_power\<close>, up to \<^verbatim>\<open>return power\<close>.\<close>

definition band_power_steps :: "real \<Rightarrow> state \<Rightarrow> (error + string) \<times> state" where
  "band_power_steps band_span_hz =
     and_then (write_cmd (Cmd ''CALC:MARK1:STAT ON'')) (\<lambda>_.
     and_then (write_cmd (Cmd ''CALC:MARK1:FUNC:BAND ON'')) (\<lambda>_.
     and_then (query (Cmd ''CALC:MARK1:FUNC?'')) (\<lambda>status.
     and_then (write_cmd (CmdNum ''CALC:MARK1:FUNC:BAND:SPAN '' band_span_hz [])) (\<lambda>_.
     and_then (query (Cmd ''CALC:MARK1:FUNC:BAND:SPAN?'')) (\<lambda>span_rb.
     and_then (warn_on_error (query (Cmd ''CALC:MARK:FUNC BPOW''))) (\<lambda>_.
     query (Cmd ''CALC:MARK1:Y?'')))))))"

definition get_band_power :: "real \<Rightarrow> state \<Rightarrow> (error + string option) \<times> state" where
  "get_band_power band_span_hz st =
     (case sa st of
        None \<Rightarrow> (Inl not_connected, st)
      | Some r \<Rightarrow>
          (let old_timeout = timeout r;
               st1 = set_timeout 10000 st
           in case none_on_error (band_power_steps band_span_hz) st1 of
                (res, st2) \<Rightarrow> (res, set_timeout old_timeout st2)))"

text \<open>The local \<^verbatim>\<open>span_hz\<close> of \<^verbatim>\<open>read_obwidth\<close>.\<close>

definition span_hz :: "real option \<Rightarrow> int option \<Rightarrow> real option \<Rightarrow> real" where
  "span_hz ob_symbol_rate ob_spread_factor ob_tx_roll_off =
     (if ob_symbol_rate = None \<or> ob_spread_factor = None \<or> ob_tx_roll_off = None
      then 10000000
      else the ob_symbol_rate * 1000 * real_of_int (the ob_spread_factor)
             * (1 + the ob_tx_roll_off) * 2)"

definition read_obwidth ::
  "real option \<Rightarrow> int option \<Rightarrow> real option \<Rightarrow> state \<Rightarrow> (error + string option) \<times> state" where
  "read_obwidth ob_symbol_rate ob_spread_factor ob_tx_roll_off =
     none_on_error
       (and_then (write_cmd (CmdNum '':SENSe:OBWidth:FREQ:SPAN ''
                    (span_hz ob_symbol_rate ob_spread_factor ob_tx_roll_off) '' Hz'')) (\<lambda>_.
        and_then (query (Cmd '':SENSe:OBWidth:FREQ:SPAN?'')) (\<lambda>readback.
        query (Cmd '':READ:OBWidth?''))))"

section \<open>Trace acquisition\<close>

text \<open>\<^verbatim>\<open>int(x)\<close> on a float: towards zero.\<close>

definition int_of_float :: "real \<Rightarrow> int" where
  "int_of_float x = (if 0 \<le> x then \<lfloor>x\<rfloor> else \<lceil>x\<rceil>)"

text \<open>
  \<^verbatim>\<open>np.linspace(start, stop, num)\<close> of the numerical library, on a count that is not negative:
  \<open>num\<close> evenly spaced samples, the last one set to \<open>stop\<close>.
\<close>

definition linspace :: "real \<Rightarrow> real \<Rightarrow> nat \<Rightarrow> real list" where
  "linspace start stop num =
     (if num = 0 then []
      else if num = 1 then [start]
      else map (\<lambda>i. real i * ((stop - start) / real (num - 1)) + start) [0..<num - 1] @ [stop])"

text \<open>\<^verbatim>\<open>float(text or default)\<close>: the default for an empty text, the parser otherwise.\<close>

definition float_or :: "(string \<Rightarrow> error + real) \<Rightarrow> real \<Rightarrow> string \<Rightarrow> error + real" where
  "float_or float default_value text = (if text = [] then Inr default_value else float text)"

text \<open>
  \<^verbatim>\<open>fetch_trace\<close>. The runtime's \<^verbatim>\<open>float(text)\<close> is the parameter \<open>float\<close>. The sweep point
  count is read, and then replaced by the number of samples whenever the two differ.
\<close>

definition fetch_trace ::
  "(string \<Rightarrow> error + real) \<Rightarrow> string \<Rightarrow> state \<Rightarrow> (error + real list \<times> real list) \<times> state" where
  "fetch_trace float trace_name st =
     (case sa st of
        None \<Rightarrow> (Inl not_connected, st)
      | Some _ \<Rightarrow>
          (let st1 = snd (warn_on_error
                       (and_then (write_cmd (Cmd '':FORM REAL,32'')) (\<lambda>_.
                        write_cmd (Cmd '':FORM:BORD SWAP''))) st);
               (pts, st2) = (case query (Cmd ''SWE:POIN?'') st1 of
                               (Inl e, st2) \<Rightarrow> (1001, st2)
                             | (Inr text, st2) \<Rightarrow>
                                 (case float text of
                                    Inl e \<Rightarrow> (1001, st2)
                                  | Inr x \<Rightarrow> (int_of_float x, st2)))
           in case query_binary_values (Cmd (''TRAC:DATA? '' @ trace_name)) st2 of
                (Inl e, st3) \<Rightarrow> (Inl e, st3)
              | (Inr None, st3) \<Rightarrow> (Inl (RuntimeError ''No trace data returned''), st3)
              | (Inr (Some trace), st3) \<Rightarrow>
                  (if length trace = 0 then (Inl (RuntimeError ''No trace data returned''), st3)
                   else
                     (let pts = (if int (length trace) \<noteq> pts then int (length trace) else pts)
                      in case get_center_frequency st3 of
                           (Inl e, st4) \<Rightarrow> (Inl e, st4)
                         | (Inr cf_text, st4) \<Rightarrow>
                             (case float_or float 0 cf_text of
                                Inl e \<Rightarrow> (Inl e, st4)
                              | Inr cf \<Rightarrow>
                                  (case get_span st4 of
                                     (Inl e, st5) \<Rightarrow> (Inl e, st5)
                                   | (Inr span_text, st5) \<Rightarrow>
                                       (case float_or float 1 span_text of
                                          Inl e \<Rightarrow> (Inl e, st5)
                                        | Inr span_v \<Rightarrow>
                                            (Inr (linspace (cf - span_v / 2) (cf + span_v / 2)
                                                    (nat pts), trace), st5))))))))"


section \<open>Screenshot retrieval\<close>

abbreviation backslash :: char where
  "backslash \<equiv> CHR 0x5C"

abbreviation dquote :: char where
  "dquote \<equiv> CHR 0x22"

text \<open>The candidate directories, raw strings in the source: every separator is two backslashes.\<close>

definition sep :: string where
  "sep = [backslash, backslash]"

definition attempts :: "(string \<times> string) list" where
  "attempts =
     [(''D:'' @ sep @ ''Users'' @ sep @ ''Instrument'' @ sep @ ''Documents'' @ sep @ ''SA''
         @ sep @ ''screen'', ''hiSky instrument SA screen folder''),
      (''SA'' @ sep @ ''screen'', ''default subdir''),
      (''C:'' @ sep @ ''temp'', ''root temp dir''),
      (''D:'' @ sep, ''root D drive''),
      (''C:'' @ sep, ''root C drive'')]"

definition remote_name :: "string \<Rightarrow> string" where
  "remote_name timestamp = ''Screenshot_'' @ timestamp @ ''.PNG''"

definition remote_path :: "string \<Rightarrow> string \<Rightarrow> string" where
  "remote_path timestamp subdir = subdir @ [backslash] @ remote_name timestamp"

definition quoted :: "string \<Rightarrow> string" where
  "quoted s = [dquote] @ s @ [dquote]"

text \<open>\<^verbatim>\<open>with open(local_filename, "wb") as f: f.write(data)\<close>\<close>

definition write_file :: "string \<Rightarrow> string \<Rightarrow> state \<Rightarrow> (error + unit) \<times> state" where
  "write_file local_filename data st =
     (if local_filename \<in> set (denied st) then (Inl OSError, st)
      else (Inr (), st\<lparr>files := (files st)(local_filename \<mapsto> data)\<rparr>))"

text \<open>The inner \<^verbatim>\<open>try\<close> of the transfer: request the file, decode the block, write it.\<close>

definition fetch_file :: "string \<Rightarrow> string \<Rightarrow> state \<Rightarrow> ((error + unit) \<times> state) option" where
  "fetch_file local_filename rpath st =
     (case write_cmd (Cmd ('':MMEM:DATA? '' @ quoted rpath)) st of
        (Inl e, st1) \<Rightarrow> Some (Inl e, st1)
      | (Inr _, st1) \<Rightarrow>
          (case read_ieee_block st1 of
             None \<Rightarrow> None
           | Some (Inl e, st2) \<Rightarrow> Some (Inl e, st2)
           | Some (Inr data, st2) \<Rightarrow> Some (write_file local_filename data st2)))"

text \<open>
  How one round of the candidate loop ends: \<^verbatim>\<open>return local_filename, remote_path\<close>, the
  \<^verbatim>\<open>continue\<close> after a listing without the file, or a caught exception (kept in
  \<^verbatim>\<open>last_error\<close>).
\<close>

datatype outcome = Returned string string | Absent | Caught error

text \<open>
  The transfer step: timeout and chunk size are raised, the file is fetched, and the
  \<^verbatim>\<open>finally\<close> puts back what was read before (\<^verbatim>\<open>getattr(self.sa, "chunk_size", 20000)\<close>
  for the chunk size).
\<close>

definition getattr_chunk_size :: "resource \<Rightarrow> int" where
  "getattr_chunk_size r = (case chunk_size r of None \<Rightarrow> 20000 | Some c \<Rightarrow> c)"

definition transfer :: "string \<Rightarrow> string \<Rightarrow> state \<Rightarrow> (outcome \<times> state) option" where
  "transfer local_filename rpath st =
     (case sa st of
        None \<Rightarrow> Some (Caught AttributeError, st)
      | Some r \<Rightarrow>
          (let old_timeout = timeout r;
               old_chunk = getattr_chunk_size r;
               st1 = set_chunk_size 1048576 (set_timeout 120000 st)
           in case fetch_file local_filename rpath st1 of
                None \<Rightarrow> None
              | Some (res, st2) \<Rightarrow>
                  Some (case res of Inl e \<Rightarrow> Caught e | Inr _ \<Rightarrow> Returned local_filename rpath,
                        set_chunk_size old_chunk (set_timeout old_timeout st2))))"

text \<open>One round of the loop over the candidates.\<close>

definition attempt :: "string \<Rightarrow> string \<Rightarrow> string \<Rightarrow> state \<Rightarrow> (outcome \<times> state) option" where
  "attempt timestamp local_filename subdir st =
     (case write_cmd (Cmd ('':MMEM:STOR:SCR '' @ quoted (remote_path timestamp subdir))) st of
        (Inl e, st1) \<Rightarrow> Some (Caught e, st1)
      | (Inr _, st1) \<Rightarrow>
          (case wait_for_opc st1 of
             (Inl e, st2) \<Rightarrow> Some (Caught e, st2)
           | (Inr _, st2) \<Rightarrow>
               (case query (Cmd ('':MMEM:CAT? '' @ quoted subdir)) st2 of
                  (Inr cat, st3) \<Rightarrow>
                    (if \<not> contains cat (remote_name timestamp) then Some (Absent, st3)
                     else transfer local_filename (remote_path timestamp subdir) st3)
                | (Inl e, st3) \<Rightarrow>
                    transfer local_filename (remote_path timestamp subdir) st3)))"

text \<open>
  The loop \<^verbatim>\<open>for subdir, desc in attempts\<close>, with \<^verbatim>\<open>last_error\<close> carried along. The result
  is what the loop returned, if it did, the final \<^verbatim>\<open>last_error\<close> and the state.
\<close>

fun capture_loop ::
  "string \<Rightarrow> string \<Rightarrow> error option \<Rightarrow> (string \<times> string) list \<Rightarrow> state \<Rightarrow>
   ((string \<times> string) option \<times> error option \<times> state) option" where
  "capture_loop timestamp local_filename last_error [] st = Some (None, last_error, st)"
| "capture_loop timestamp local_filename last_error ((subdir, desc) # rest) st =
     (case attempt timestamp local_filename subdir st of
        None \<Rightarrow> None
      | Some (Returned l p, st') \<Rightarrow> Some (Some (l, p), last_error, st')
      | Some (Absent, st') \<Rightarrow> capture_loop timestamp local_filename last_error rest st'
      | Some (Caught e, st') \<Rightarrow> capture_loop timestamp local_filename (Some e) rest st')"

text \<open>
  \<^verbatim>\<open>capture_screen\<close> over a list of candidates. \<open>timestamp\<close> is the clock reading taken once
  at the start. When no candidate delivered, \<^verbatim>\<open>last_error\<close> goes to the console and the
  result is \<^verbatim>\<open>(None, None)\<close>.
\<close>

definition capture_screen_over ::
  "(string \<times> string) list \<Rightarrow> string \<Rightarrow> string option \<Rightarrow> state \<Rightarrow>
   ((error + string option \<times> string option) \<times> state) option" where
  "capture_screen_over candidates timestamp local_filename st =
     (case sa st of
        None \<Rightarrow> Some (Inl not_connected, st)
      | Some _ \<Rightarrow>
          (let local_filename = (case local_filename of
                                   None \<Rightarrow> ''screenshot_'' @ timestamp @ ''.png''
                                 | Some name \<Rightarrow> name)
           in case capture_loop timestamp local_filename None candidates st of
                None \<Rightarrow> None
              | Some (Some (l, p), last_error, st') \<Rightarrow> Some (Inr (Some l, Some p), st')
              | Some (None, last_error, st') \<Rightarrow>
                  Some (Inr (None, None), st'\<lparr>printed := printed st' @ [last_error]\<rparr>)))"

definition capture_screen ::
  "string \<Rightarrow> string option \<Rightarrow> state \<Rightarrow>
   ((error + string option \<times> string option) \<times> state) option" where
  "capture_screen = capture_screen_over attempts"


section \<open>Notions used in the statements\<close>

text \<open>The number a run of decimal digits spells.\<close>

definition decimal :: "string \<Rightarrow> int" where
  "decimal ds = foldl (\<lambda>a c. a * 10 + digit_val c) 0 ds"

text \<open>
  The head of a well-formed block \<^verbatim>\<open>#<n><digits><payload>\<close>: the digit \<open>d\<close> counts the
  digits \<open>ds\<close>, of which there is at least one, and \<open>ds\<close> spells the payload length \<open>L\<close>.
\<close>

definition valid_length_field :: "char \<Rightarrow> string \<Rightarrow> nat \<Rightarrow> bool" where
  "valid_length_field d ds L =
     (is_digit d \<and> digit_val d = int (length ds) \<and> ds \<noteq> [] \<and> list_all is_digit ds \<and>
      decimal ds = int L)"

text \<open>
  A connected session with the default timeout, nothing on disk, whose transport will answer
  with the given entries; and the object before \<^verbatim>\<open>connect\<close>.
\<close>

definition connected_with :: "reply list \<Rightarrow> state" where
  "connected_with rs =
     \<lparr>sa = Some \<lparr>timeout = 5000, chunk_size = Some 20480, pending = rs, sent = []\<rparr>,
      files = (\<lambda>_. None), denied = [], printed = []\<rparr>"

definition disconnected :: state where
  "disconnected = \<lparr>sa = None, files = (\<lambda>_. None), denied = [], printed = []\<rparr>"

text \<open>
  The \<open>k\<close>-th transport call of an operation fails: its answer is a raised exception, or the
  instrument has stopped answering before.
\<close>

definition step_fails :: "reply list \<Rightarrow> nat \<Rightarrow> bool" where
  "step_fails rs k =
     (if k < length rs then (case rs ! k of Raise e \<Rightarrow> True | _ \<Rightarrow> False) else True)"

text \<open>
  The session settings of \<open>st\<close> are those of \<open>st'\<close>: connected or not alike, and when
  connected the same timeout and the same chunk size, read the way the code reads it.
\<close>

definition kept :: "state \<Rightarrow> state \<Rightarrow> bool" where
  "kept st st' =
     rel_option
       (\<lambda>r r'. timeout r' = timeout r \<and> getattr_chunk_size r' = getattr_chunk_size r
                \<and> (chunk_size r \<noteq> None \<longrightarrow> chunk_size r' = chunk_size r))
       (sa st) (sa st')"


text \<open>
  A stand-in for the runtime's \<^verbatim>\<open>float(text)\<close> in worked examples: the texts of a table and
  their values; any other text is refused.
\<close>

definition float_table :: "(string \<times> real) list \<Rightarrow> string \<Rightarrow> error + real" where
  "float_table tbl text =
     (case map_of tbl text of
        None \<Rightarrow> Inl (ValueError ''could not convert string to float'')
      | Some x \<Rightarrow> Inr x)"

text \<open>What one round of the candidate loop sends before the transfer: store, barrier, listing.\<close>

definition round_log :: "int \<Rightarrow> string \<Rightarrow> string \<Rightarrow> (int \<times> command) list" where
  "round_log t timestamp subdir =
     [(t, Cmd ('':MMEM:STOR:SCR '' @ quoted (remote_path timestamp subdir))),
      (t, Cmd ''*OPC?''),
      (t, Cmd ('':MMEM:CAT? '' @ quoted subdir))]"

text \<open>
  The answers of rounds that get as far as the listing: the store is acknowledged, the
  barrier and the listing are answered with \<open>opc\<close> and \<open>cat\<close>.
\<close>

definition skipped_script :: "(string \<times> string) list \<Rightarrow> reply list" where
  "skipped_script answers = concat (map (\<lambda>(opc, cat). [Ack, Text opc, Text cat]) answers)"

text \<open>
  The candidates of a list are tried in order and none delivers: each round ends in the
  \<^verbatim>\<open>continue\<close> or in a caught exception. The result is the last exception caught, if any,
  and the state reached.
\<close>

fun failing_rounds ::
  "string \<Rightarrow> string \<Rightarrow> error option \<Rightarrow> (string \<times> string) list \<Rightarrow> state \<Rightarrow>
   (error option \<times> state) option" where
  "failing_rounds timestamp local_filename last_error [] st = Some (last_error, st)"
| "failing_rounds timestamp local_filename last_error ((subdir, desc) # rest) st =
     (case attempt timestamp local_filename subdir st of
        Some (Absent, st') \<Rightarrow> failing_rounds timestamp local_filename last_error rest st'
      | Some (Caught e, st') \<Rightarrow> failing_rounds timestamp local_filename (Some e) rest st'
      | _ \<Rightarrow> None)"

text \<open>Four rounds whose listing does not show the screenshot.\<close>

definition four_absent :: "reply list" where
  "four_absent = skipped_script [(''1'', []), (''1'', []), (''1'', ''old.PNG''), (''1'', [])]"

section \<open>Facts about the text helpers\<close>

lemma digit_ascii: "is_digit c \<Longrightarrow> \<not> 128 \<le> (of_char c :: nat)"
  by (simp add: is_digit_def)

lemma digit_not_sign: "is_digit c \<Longrightarrow> c \<noteq> CHR ''+'' \<and> c \<noteq> CHR ''-'' \<and> c \<noteq> CHR ''_''"
  by (auto simp: is_digit_def)

lemma digit_not_int_blank: "is_digit c \<Longrightarrow> \<not> is_int_blank c"
  by (auto simp: is_digit_def is_int_blank_def)

lemma strip_int_blanks_digits:
  assumes "ds \<noteq> []" "list_all is_digit ds"
  shows "strip_int_blanks ds = ds"
proof -
  from assms obtain c cs where ds: "ds = c # cs" by (cases ds) auto
  with assms have "\<not> is_int_blank c" by (simp add: digit_not_int_blank)
  then have front: "dropWhile is_int_blank ds = ds" by (simp add: ds)
  from assms have "is_digit (last ds)" by (simp add: list_all_iff)
  then have "\<not> is_int_blank (hd (rev ds))"
    using assms(1) by (simp add: hd_rev digit_not_int_blank)
  then have "dropWhile is_int_blank (rev ds) = rev ds"
    using assms(1) by (cases "rev ds") auto
  with front show ?thesis by (simp add: strip_int_blanks_def)
qed

lemma more_digits_all:
  "list_all is_digit ds \<Longrightarrow>
   more_digits acc ds = Some (foldl (\<lambda>a c. a * 10 + digit_val c) acc ds)"
  by (induction ds arbitrary: acc) auto

lemma int_of_bytes_digits:
  assumes "ds \<noteq> []" "list_all is_digit ds"
  shows "int_of_bytes ds = Inr (decimal ds)"
proof -
  from assms obtain c cs where ds: "ds = c # cs" by (cases ds) auto
  have ascii: "\<not> (\<exists>b \<in> set ds. 128 \<le> (of_char b :: nat))"
    using assms(2) by (auto simp: list_all_iff dest: digit_ascii)
  have c: "is_digit c" "list_all is_digit cs" using assms(2) ds by auto
  have u: "unsigned_int ds = Some (decimal ds)"
    using c by (simp add: unsigned_int_def ds more_digits_all decimal_def)
  have s: "strip_int_blanks ds = c # cs" using strip_int_blanks_digits[OF assms] ds by simp
  show ?thesis
    unfolding int_of_bytes_def
    using ascii u[unfolded ds] digit_not_sign[OF c(1)]
    by (simp add: s) (simp add: ds)
qed

section \<open>The accumulation loop\<close>

lemma read_payload_done: "read_payload r data 0 = Some (Inr data, r)"
  by (subst read_payload.simps) simp

lemma read_payload_step:
  "remaining \<noteq> 0 \<Longrightarrow>
   read_payload r data remaining =
     (case sa_read_bytes r (min 1048576 remaining) of
        (Inl e, r') \<Rightarrow> Some (Inl e, r')
      | (Inr chunk, r') \<Rightarrow>
          read_payload r' (data @ chunk) (remaining - int (length chunk)))"
  by (subst read_payload.simps) simp

text \<open>
  Fragments that add up to the bytes still missing are gathered in full, whatever their
  sizes: a fragment longer than the read is cut and read again, an empty one is passed over.
  The measure is the number of bytes plus the number of fragments still to come.
\<close>

lemma read_payload_chunks:
  "pending r = map Bytes chunks @ rest \<Longrightarrow> remaining = int (length (concat chunks)) \<Longrightarrow>
   \<exists>r'. read_payload r data remaining = Some (Inr (data @ concat chunks), r')"
proof (induction "length (concat chunks) + length chunks"
    arbitrary: r data remaining chunks rule: less_induct)
  case less
  show ?case
  proof (cases "remaining = 0")
    case True
    with less.prems show ?thesis by (simp add: read_payload_done)
  next
    case False
    with less.prems obtain c cs where chunks: "chunks = c # cs" by (cases chunks) auto
    define n where "n = min 1048576 remaining"
    have npos: "0 < n" using False less.prems(2) by (simp add: n_def)
    show ?thesis
    proof (cases "int (length c) \<le> n")
      case True
      define r1 where "r1 = r\<lparr>pending := map Bytes cs @ rest\<rparr>"
      have rd: "sa_read_bytes r n = (Inr c, r1)"
        using npos True less.prems(1) by (simp add: sa_read_bytes_def chunks r1_def)
      have "\<exists>r'. read_payload r1 (data @ c) (remaining - int (length c))
              = Some (Inr ((data @ c) @ concat cs), r')"
        by (rule less.hyps) (simp_all add: chunks r1_def less.prems(2))
      then show ?thesis
        using False rd by (simp add: read_payload_step n_def[symmetric] chunks)
    next
      case long: False
      define k where "k = nat n"
      define r1 where "r1 = r\<lparr>pending := map Bytes (drop k c # cs) @ rest\<rparr>"
      have kpos: "0 < k" "k < length c" using npos long by (simp_all add: k_def)
      have rd: "sa_read_bytes r n = (Inr (take k c), r1)"
        using npos long less.prems(1) by (simp add: sa_read_bytes_def chunks r1_def k_def)
      have m: "length (concat (drop k c # cs)) + length (drop k c # cs)
                 < length (concat chunks) + length chunks"
        using kpos by (simp add: chunks)
      have p: "pending r1 = map Bytes (drop k c # cs) @ rest"
        by (simp add: r1_def)
      have l: "remaining - int (length (take k c)) = int (length (concat (drop k c # cs)))"
        using kpos by (simp add: chunks less.prems(2))
      have "\<exists>r'. read_payload r1 (data @ take k c) (remaining - int (length (take k c)))
              = Some (Inr ((data @ take k c) @ concat (drop k c # cs)), r')"
        by (rule less.hyps[OF m p l])
      moreover have "take k c @ drop k c @ concat cs = c @ concat cs"
        by (metis append_assoc append_take_drop_id)
      ultimately show ?thesis
        using False rd by (simp add: read_payload_step n_def[symmetric] chunks)
    qed
  qed
qed

text \<open>The loop hands back a payload only when nothing remains to be read.\<close>

lemma read_payload_complete_aux:
  assumes "read_payload r data remaining = Some y"
  shows "\<forall>out r'. y = (Inr out, r') \<longrightarrow> int (length out) = int (length data) + remaining"
proof (rule read_payload.raw_induct
    [where P = "\<lambda>r data remaining y.
       \<forall>out r'. y = (Inr out, r') \<longrightarrow> int (length out) = int (length data) + remaining",
     OF _ assms], goal_cases)
  case (1 loop r data remaining y)
  show ?case
  proof (cases "remaining = 0")
    case True
    with 1(2) show ?thesis by auto
  next
    case False
    show ?thesis
    proof (intro allI impI)
      fix out r'
      assume y: "y = (Inr out, r')"
      with False 1(2) obtain chunk r1 where
        rec: "loop r1 (data @ chunk) (remaining - int (length chunk)) = Some (Inr out, r')"
        by (auto split: prod.splits sum.splits)
      from 1(1)[OF rec] show "int (length out) = int (length data) + remaining" by simp
    qed
  qed
qed

lemma read_payload_complete:
  "read_payload r data remaining = Some (Inr out, r') \<Longrightarrow>
   int (length out) = int (length data) + remaining"
  using read_payload_complete_aux by blast

section \<open>Claims about the block decoder\<close>

text \<open>A read that asks for the front part of the head fragment gets exactly that part.\<close>

lemma read_cut:
  assumes "a \<noteq> []" and "pending r = Bytes (a @ b) # rest"
  shows "sa_read_bytes r (int (length a))
           = (Inr a, r\<lparr>pending := (if b = [] then rest else Bytes b # rest)\<rparr>)"
  using assms by (auto simp: sa_read_bytes_def)

lemma read_payload_stream:
  assumes "pending r = (if lead = [] then map Bytes chunks @ rest
                        else Bytes lead # map Bytes chunks @ rest)"
  shows "\<exists>r'. read_payload r [] (int (length (lead @ concat chunks)))
               = Some (Inr (lead @ concat chunks), r')"
proof (cases "lead = []")
  case True
  with assms read_payload_chunks[of r chunks rest "int (length (concat chunks))" "[]"]
  show ?thesis by simp
next
  case False
  with assms read_payload_chunks[of r "lead # chunks" rest "int (length (concat (lead # chunks)))" "[]"]
  show ?thesis by simp
qed

text \<open>
  Claim C1. For every valid block of declared length \<open>L\<close>, the decoder returns the payload,
  of exactly \<open>L\<close> bytes, however the transport fragments its delivery: the payload comes
  as any sequence of fragments (short reads, empty reads, fragments longer than one read),
  the first of them possibly in one piece with the length digits or with the whole head of
  the block. The two reads made for the head, \<^verbatim>\<open>#<n>\<close> and the digits, are each answered in
  full; the loop gathers the rest.
\<close>

theorem read_ieee_block_fragmented:
  assumes "sa st = Some r"
    and "valid_length_field d ds L"
    and "length (lead @ concat chunks) = L"
    and "pending r = Bytes [CHR ''#'', d] # Bytes (ds @ lead) # map Bytes chunks @ rest
       \<or> pending r = Bytes (CHR ''#'' # d # ds @ lead) # map Bytes chunks @ rest"
  shows "\<exists>out st'. read_ieee_block st = Some (Inr out, st')
           \<and> out = lead @ concat chunks \<and> length out = L"
proof -
  from assms(2) have d: "is_digit d" "digit_val d = int (length ds)"
    and ds: "ds \<noteq> []" "list_all is_digit ds"
    and L: "decimal ds = int L"
    by (simp_all add: valid_length_field_def)
  define r2 where "r2 = r\<lparr>pending := (if lead = [] then map Bytes chunks @ rest
                                       else Bytes lead # map Bytes chunks @ rest)\<rparr>"
  have n: "int_of_chr d = Inr (int (length ds))"
    using d by (simp add: int_of_chr_def)
  have t: "int_of_bytes ds = Inr (int (length (lead @ concat chunks)))"
    using int_of_bytes_digits[OF ds] L assms(3) by simp
  have hdr: "\<exists>r1. sa_read_bytes r 2 = (Inr [CHR ''#'', d], r1)
               \<and> sa_read_bytes r1 (int (length ds)) = (Inr ds, r2)"
    using assms(4)
  proof
    assume p: "pending r = Bytes [CHR ''#'', d] # Bytes (ds @ lead) # map Bytes chunks @ rest"
    define r1 where "r1 = r\<lparr>pending := Bytes (ds @ lead) # map Bytes chunks @ rest\<rparr>"
    have "sa_read_bytes r 2 = (Inr [CHR ''#'', d], r1)"
      by (simp add: sa_read_bytes_def p r1_def)
    moreover have "sa_read_bytes r1 (int (length ds)) = (Inr ds, r2)"
      using read_cut[OF ds(1), of r1 lead "map Bytes chunks @ rest"]
      by (simp add: r1_def r2_def)
    ultimately show ?thesis by blast
  next
    assume p: "pending r = Bytes (CHR ''#'' # d # ds @ lead) # map Bytes chunks @ rest"
    define r1 where "r1 = r\<lparr>pending := Bytes (ds @ lead) # map Bytes chunks @ rest\<rparr>"
    have "sa_read_bytes r 2 = (Inr [CHR ''#'', d], r1)"
      using read_cut[of "[CHR ''#'', d]" r "ds @ lead" "map Bytes chunks @ rest"] p ds(1)
      by (simp add: r1_def)
    moreover have "sa_read_bytes r1 (int (length ds)) = (Inr ds, r2)"
      using read_cut[OF ds(1), of r1 lead "map Bytes chunks @ rest"]
      by (simp add: r1_def r2_def)
    ultimately show ?thesis by blast
  qed
  then obtain r1 where h: "sa_read_bytes r 2 = (Inr [CHR ''#'', d], r1)"
    and l: "sa_read_bytes r1 (int (length ds)) = (Inr ds, r2)" by blast
  obtain r' where
    "read_payload r2 [] (int (length (lead @ concat chunks))) = Some (Inr (lead @ concat chunks), r')"
    using read_payload_stream[of r2 lead chunks rest] by (auto simp: r2_def)
  then have "read_ieee_block_sa r = Some (Inr (lead @ concat chunks), r')"
    by (simp add: read_ieee_block_sa_def h n l t)
  then show ?thesis
    using assms(1,3) by (simp add: read_ieee_block_def)
qed

theorem read_ieee_block_fragmented_witness:
  "(\<exists>st'. read_ieee_block
           (connected_with [Bytes ''#1'', Bytes ''5'', Bytes ''he'', Bytes [], Bytes ''llo'',
                            Text ''x''])
         = Some (Inr ''hello'', st'))
   \<and> (\<exists>st'. read_ieee_block (connected_with [Bytes ''#15he'', Bytes ''l'', Bytes ''lo''])
         = Some (Inr ''hello'', st'))"
proof -
  have v: "valid_length_field (CHR ''1'') ''5'' 5"
    by (simp add: valid_length_field_def is_digit_def digit_val_def decimal_def)
  have c: "sa (connected_with rs)
             = Some \<lparr>timeout = 5000, chunk_size = Some 20480, pending = rs, sent = []\<rparr>" for rs
    by (simp add: connected_with_def)
  from read_ieee_block_fragmented
      [where st = "connected_with [Bytes ''#1'', Bytes ''5'', Bytes ''he'', Bytes [],
                                   Bytes ''llo'', Text ''x'']"
         and ds = "''5''" and lead = "[]" and chunks = "[''he'', [], ''llo'']"
         and rest = "[Text ''x'']", OF c v]
    read_ieee_block_fragmented
      [where st = "connected_with [Bytes ''#15he'', Bytes ''l'', Bytes ''lo'']"
         and ds = "''5''" and lead = "''he''" and chunks = "[''l'', ''lo'']"
         and rest = "[]", OF c v]
  show ?thesis by simp
qed

text \<open>
  The head is read without a loop: a first read that brings the marker alone ends in
  \<^verbatim>\<open>IndexError\<close>.
\<close>

lemma read_ieee_block_short_header:
  assumes "sa st = Some r" and "pending r = Bytes [CHR ''#''] # rest"
  shows "map_option fst (read_ieee_block st) = Some (Inl IndexError)"
  using assms
  by (simp add: read_ieee_block_def read_ieee_block_sa_def sa_read_bytes_def)

text \<open>
  Claim C8. When the first byte received is not the marker \<^verbatim>\<open>#\<close>, the decoder fails with
  \<^verbatim>\<open>RuntimeError("Not an IEEE block")\<close>, whatever follows that byte.
\<close>

theorem read_ieee_block_bad_marker:
  assumes "sa st = Some r" and "pending r = Bytes (b # bs) # rest" and "b \<noteq> CHR ''#''"
  shows "map_option fst (read_ieee_block st) = Some (Inl not_ieee)"
  using assms
  by (simp add: read_ieee_block_def read_ieee_block_sa_def sa_read_bytes_def)

theorem read_ieee_block_bad_marker_witness:
  "map_option fst (read_ieee_block (connected_with [Bytes ''X5'', Bytes ''abc'']))
     = Some (Inl not_ieee)"
  using read_ieee_block_bad_marker
    [of "connected_with [Bytes ''X5'', Bytes ''abc'']" _ "CHR ''X''" "''5''" "[Bytes ''abc'']"]
  by (simp add: connected_with_def)

text \<open>
  Claim C10. When the first byte is the marker \<^verbatim>\<open>#\<close> and the second byte is not an ASCII
  decimal digit, the decoder fails with the \<^verbatim>\<open>ValueError\<close> of \<^verbatim>\<open>int\<close>, not with
  \<^verbatim>\<open>RuntimeError("Not an IEEE block")\<close>: the marker alone is checked.
\<close>

theorem read_ieee_block_bad_digit_count:
  assumes "sa st = Some r" and "pending r = Bytes (CHR ''#'' # b # bs) # rest"
    and "\<not> is_digit b"
  shows "map_option fst (read_ieee_block st) = Some (Inl invalid_literal)
       \<and> map_option fst (read_ieee_block st) \<noteq> Some (Inl not_ieee)"
  using assms
  by (simp add: read_ieee_block_def read_ieee_block_sa_def sa_read_bytes_def int_of_chr_def)

theorem read_ieee_block_bad_digit_count_witness:
  "map_option fst (read_ieee_block (connected_with [Bytes ''#x'', Bytes ''abc'']))
     = Some (Inl invalid_literal)"
  using read_ieee_block_bad_digit_count
    [of "connected_with [Bytes ''#x'', Bytes ''abc'']" _ "CHR ''x''" "[]" "[Bytes ''abc'']"]
  by (simp add: connected_with_def is_digit_def)


section \<open>Claims about the measurement engine\<close>

lemmas chan = write_cmd_def query_def sa_write_def sa_query_def exchange_def log_cmd_def and_then_def
  none_on_error_def warn_on_error_def set_timeout_def Let_def

lemma expect_ack_Inr [simp]: "expect_ack x = Inr u \<longleftrightarrow> x = Ack"
  by (cases x) auto

lemma expect_text_Inr [simp]: "expect_text x = Inr s \<longleftrightarrow> x = Text s"
  by (cases x) auto

lemma write_cmd_ok:
  "write_cmd c st = (Inr u, st') \<Longrightarrow>
   \<exists>r rest. sa st = Some r \<and> pending r = Ack # rest \<and>
     st' = st\<lparr>sa := Some (r\<lparr>sent := sent r @ [(timeout r, c)], pending := rest\<rparr>)\<rparr>"
  by (auto simp: write_cmd_def sa_write_def exchange_def log_cmd_def Let_def
      split: option.splits list.splits prod.splits)

lemma query_ok:
  "query c st = (Inr v, st') \<Longrightarrow>
   \<exists>r s rest. sa st = Some r \<and> pending r = Text s # rest \<and> v = strip s \<and>
     st' = st\<lparr>sa := Some (r\<lparr>sent := sent r @ [(timeout r, c)], pending := rest\<rparr>)\<rparr>"
  by (auto simp: query_def sa_query_def exchange_def log_cmd_def Let_def
      split: option.splits list.splits prod.splits sum.splits)

lemma query_any:
  "sa st = Some r \<Longrightarrow>
   \<exists>res. query c st = (res, st\<lparr>sa := Some (r\<lparr>sent := sent r @ [(timeout r, c)], pending := tl (pending r)\<rparr>)\<rparr>)"
  by (auto simp: query_def sa_query_def exchange_def log_cmd_def Let_def
      split: option.splits list.splits prod.splits sum.splits)

lemma and_then_ok:
  "and_then m f st = (Inr v, st') \<Longrightarrow> \<exists>a st1. m st = (Inr a, st1) \<and> f a st1 = (Inr v, st')"
  by (auto simp: and_then_def split: prod.splits sum.splits)

lemma high_peak_some:
  assumes "fst (get_current_high_peak st) = Inr (Some v)"
  shows "\<exists>r s rest. sa st = Some r \<and> pending r = Ack # Text s # rest \<and> v = strip s"
proof -
  from assms obtain st' where
    "and_then (write_cmd (Cmd ''CALC:MARK:MAX'')) (\<lambda>_. query (Cmd ''CALC:MARK:Y?'')) st = (Inr v, st')"
    by (auto simp: get_current_high_peak_def none_on_error_def split: prod.splits sum.splits)
  then obtain u st1 where w: "write_cmd (Cmd ''CALC:MARK:MAX'') st = (Inr u, st1)"
    and q: "query (Cmd ''CALC:MARK:Y?'') st1 = (Inr v, st')"
    by (blast dest: and_then_ok)
  from write_cmd_ok[OF w] query_ok[OF q] show ?thesis by auto
qed

lemma band_power_some:
  assumes "fst (get_band_power x st) = Inr (Some v)"
  shows "\<exists>r a b c d rest. sa st = Some r \<and> pending r = Ack # Ack # Text a # Ack # Text b # c # Text d # rest \<and> v = strip d"
proof -
  from assms obtain r where r: "sa st = Some r"
    by (auto simp: get_band_power_def split: option.splits)
  define st0 where "st0 = set_timeout 10000 st"
  have r0: "sa st0 = Some (r\<lparr>timeout := 10000\<rparr>)" by (simp add: st0_def set_timeout_def r)
  from assms r obtain st' where "band_power_steps x st0 = (Inr v, st')"
    by (auto simp: get_band_power_def none_on_error_def Let_def st0_def split: prod.splits sum.splits)
  then obtain st1 st2 st3 st4 st5 st6 u1 u2 a u4 b u6 where
    s1: "write_cmd (Cmd ''CALC:MARK1:STAT ON'') st0 = (Inr u1, st1)" and
    s2: "write_cmd (Cmd ''CALC:MARK1:FUNC:BAND ON'') st1 = (Inr u2, st2)" and
    s3: "query (Cmd ''CALC:MARK1:FUNC?'') st2 = (Inr a, st3)" and
    s4: "write_cmd (CmdNum ''CALC:MARK1:FUNC:BAND:SPAN '' x []) st3 = (Inr u4, st4)" and
    s5: "query (Cmd ''CALC:MARK1:FUNC:BAND:SPAN?'') st4 = (Inr b, st5)" and
    s6: "warn_on_error (query (Cmd ''CALC:MARK:FUNC BPOW'')) st5 = (Inr u6, st6)" and
    s7: "query (Cmd ''CALC:MARK1:Y?'') st6 = (Inr v, st')"
    unfolding band_power_steps_def by (blast dest!: and_then_ok)
  from write_cmd_ok[OF s1] r0 obtain p1 where p1: "pending r = Ack # p1"
    and t1: "sa st1 = Some (r\<lparr>timeout := 10000, sent := sent r @ [(10000, Cmd ''CALC:MARK1:STAT ON'')], pending := p1\<rparr>)"
    by auto
  from write_cmd_ok[OF s2] t1 obtain p2 r2 where p2: "p1 = Ack # p2"
    and t2: "sa st2 = Some r2" "pending r2 = p2" by auto
  from query_ok[OF s3] t2 obtain p3 r3 a' where p3: "p2 = Text a' # p3"
    and t3: "sa st3 = Some r3" "pending r3 = p3" by auto
  from write_cmd_ok[OF s4] t3 obtain p4 r4 where p4: "p3 = Ack # p4"
    and t4: "sa st4 = Some r4" "pending r4 = p4" by auto
  from query_ok[OF s5] t4 obtain p5 r5 b' where p5: "p4 = Text b' # p5"
    and t5: "sa st5 = Some r5" "pending r5 = p5" by auto
  from s6 query_any[OF t5(1), of "Cmd ''CALC:MARK:FUNC BPOW''"] obtain r6 where
    t6: "sa st6 = Some r6" "pending r6 = tl p5"
    by (auto simp: warn_on_error_def t5 split: prod.splits)
  from query_ok[OF s7] t6 obtain p7 d where p7: "tl p5 = Text d # p7" and v: "v = strip d" by auto
  then obtain c where "p5 = c # Text d # p7" by (cases p5) auto
  with r p1 p2 p3 p4 p5 v show ?thesis by auto
qed


lemma low_peak_some:
  assumes "fst (get_current_low_peak st) = Inr (Some v)"
  shows "\<exists>r s rest. sa st = Some r \<and> pending r = Ack # Text s # rest \<and> v = strip s"
proof -
  from assms obtain st' where
    "and_then (write_cmd (Cmd ''CALC:MARK:MIN'')) (\<lambda>_. query (Cmd ''CALC:MARK:Y?'')) st = (Inr v, st')"
    by (auto simp: get_current_low_peak_def none_on_error_def split: prod.splits sum.splits)
  then obtain u st1 where w: "write_cmd (Cmd ''CALC:MARK:MIN'') st = (Inr u, st1)"
    and q: "query (Cmd ''CALC:MARK:Y?'') st1 = (Inr v, st')"
    by (blast dest: and_then_ok)
  from write_cmd_ok[OF w] query_ok[OF q] show ?thesis by auto
qed

lemma read_obwidth_some:
  assumes "fst (read_obwidth sr sf ro st) = Inr (Some v)"
  shows "\<exists>r a s rest. sa st = Some r \<and> pending r = Ack # Text a # Text s # rest \<and> v = strip s"
proof -
  from assms obtain st' u st1 a st2 where
    w: "write_cmd (CmdNum '':SENSe:OBWidth:FREQ:SPAN '' (span_hz sr sf ro) '' Hz'') st = (Inr u, st1)"
    and q1: "query (Cmd '':SENSe:OBWidth:FREQ:SPAN?'') st1 = (Inr a, st2)"
    and q2: "query (Cmd '':READ:OBWidth?'') st2 = (Inr v, st')"
    by (auto simp: read_obwidth_def none_on_error_def split: prod.splits sum.splits dest!: and_then_ok)
  from write_cmd_ok[OF w] obtain r p1 where 1: "sa st = Some r" "pending r = Ack # p1"
    and t1: "sa st1 = Some (r\<lparr>sent := sent r @ [(timeout r, CmdNum '':SENSe:OBWidth:FREQ:SPAN '' (span_hz sr sf ro) '' Hz'')], pending := p1\<rparr>)"
    by auto
  from query_ok[OF q1] t1 obtain a' p2 r2 where 2: "p1 = Text a' # p2" and t2: "sa st2 = Some r2" "pending r2 = p2"
    by auto
  from query_ok[OF q2] t2 obtain s p3 where 3: "p2 = Text s # p3" "v = strip s" by auto
  from 1 2 3 show ?thesis by auto
qed

lemma none_on_error_cases:
  "fst (none_on_error m st) = Inr None \<or> (\<exists>v. fst (none_on_error m st) = Inr (Some v))"
  by (auto simp: none_on_error_def split: prod.splits sum.splits)

lemma none_on_error_not_Inl: "fst (none_on_error m st) \<noteq> Inl e"
  by (auto simp: none_on_error_def split: prod.splits sum.splits)

lemma band_power_cases:
  "sa st = Some r \<Longrightarrow>
   fst (get_band_power x st) = Inr None \<or> (\<exists>v. fst (get_band_power x st) = Inr (Some v))"
  using none_on_error_cases[of "band_power_steps x" "set_timeout 10000 st"]
  by (auto simp: get_band_power_def Let_def split: prod.splits)

text \<open>
  What the measurement operations do when something fails. None of them raises on a
  connected session: a transport call that fails (any call of the peak searches and of the
  occupied bandwidth, any call of the band power but the tolerated mode selection) makes
  the result \<open>None\<close>. With the session absent, the band power alone fails with
  \<^verbatim>\<open>ValueError("Analyzer not connected")\<close>.
\<close>

lemma measurement_failures:
  "(\<forall>e. fst (get_current_high_peak st) \<noteq> Inl e \<and> fst (get_current_low_peak st) \<noteq> Inl e
        \<and> fst (read_obwidth sr sf ro st) \<noteq> Inl e)
   \<and> (sa st \<noteq> None \<longrightarrow> (\<forall>e. fst (get_band_power x st) \<noteq> Inl e))
   \<and> (sa st = Some r \<and> step_fails (pending r) k \<longrightarrow>
        (k < 2 \<longrightarrow> fst (get_current_high_peak st) = Inr None
                 \<and> fst (get_current_low_peak st) = Inr None)
      \<and> (k < 3 \<longrightarrow> fst (read_obwidth sr sf ro st) = Inr None)
      \<and> (k < 7 \<and> k \<noteq> 5 \<longrightarrow> fst (get_band_power x st) = Inr None))
   \<and> (sa st = None \<longrightarrow>
        fst (get_band_power x st) = Inl not_connected
      \<and> fst (get_current_high_peak st) = Inr None
      \<and> fst (get_current_low_peak st) = Inr None
      \<and> fst (read_obwidth sr sf ro st) = Inr None)"
proof (intro conjI allI impI)
  fix e
  show "fst (get_current_high_peak st) \<noteq> Inl e"
    by (simp add: get_current_high_peak_def none_on_error_not_Inl)
  show "fst (get_current_low_peak st) \<noteq> Inl e"
    by (simp add: get_current_low_peak_def none_on_error_not_Inl)
  show "fst (read_obwidth sr sf ro st) \<noteq> Inl e"
    by (simp add: read_obwidth_def none_on_error_not_Inl)
next
  fix e
  assume "sa st \<noteq> None"
  then obtain r where "sa st = Some r" by auto
  from band_power_cases[OF this, of x] show "fst (get_band_power x st) \<noteq> Inl e"
    by auto
next
  assume a: "sa st = Some r \<and> step_fails (pending r) k" and k: "k < 2"
  have k': "k = 0 \<or> k = 1" using k by auto
  show "fst (get_current_high_peak st) = Inr None"
  proof (rule ccontr)
    assume "fst (get_current_high_peak st) \<noteq> Inr None"
    then obtain v where "fst (get_current_high_peak st) = Inr (Some v)"
      unfolding get_current_high_peak_def using none_on_error_cases by blast
    from high_peak_some[OF this] a k' show False
      by (auto simp: step_fails_def)
  qed
  show "fst (get_current_low_peak st) = Inr None"
  proof (rule ccontr)
    assume "fst (get_current_low_peak st) \<noteq> Inr None"
    then obtain v where "fst (get_current_low_peak st) = Inr (Some v)"
      unfolding get_current_low_peak_def using none_on_error_cases by blast
    from low_peak_some[OF this] a k' show False
      by (auto simp: step_fails_def)
  qed
next
  assume a: "sa st = Some r \<and> step_fails (pending r) k" and k: "k < 3"
  have k': "k = 0 \<or> k = 1 \<or> k = 2" using k by auto
  show "fst (read_obwidth sr sf ro st) = Inr None"
  proof (rule ccontr)
    assume "fst (read_obwidth sr sf ro st) \<noteq> Inr None"
    then obtain v where "fst (read_obwidth sr sf ro st) = Inr (Some v)"
      unfolding read_obwidth_def using none_on_error_cases by blast
    from read_obwidth_some[OF this] a k' show False
      by (auto simp: step_fails_def)
  qed
next
  assume a: "sa st = Some r \<and> step_fails (pending r) k" and k: "k < 7 \<and> k \<noteq> 5"
  have k': "k = 0 \<or> k = 1 \<or> k = 2 \<or> k = 3 \<or> k = 4 \<or> k = 6" using k by auto
  show "fst (get_band_power x st) = Inr None"
  proof (rule ccontr)
    assume "fst (get_band_power x st) \<noteq> Inr None"
    then obtain v where "fst (get_band_power x st) = Inr (Some v)"
      using band_power_cases a by blast
    from band_power_some[OF this] a k' show False
      by (auto simp: step_fails_def)
  qed
next
  assume "sa st = None"
  then show "fst (get_band_power x st) = Inl not_connected"
    "fst (get_current_high_peak st) = Inr None"
    "fst (get_current_low_peak st) = Inr None"
    "fst (read_obwidth sr sf ro st) = Inr None"
    by (simp_all add: get_band_power_def get_current_high_peak_def get_current_low_peak_def
        read_obwidth_def none_on_error_def and_then_def write_cmd_def)
qed

lemma measurement_failures_example:
  "fst (get_current_high_peak (connected_with [Ack, Raise timed_out])) = Inr None
   \<and> fst (read_obwidth None None None (connected_with [Ack, Text ''1'', Raise timed_out])) = Inr None
   \<and> fst (get_band_power 1 (connected_with [Ack, Ack, Text ''1'', Raise timed_out])) = Inr None
   \<and> fst (get_band_power 1 disconnected) = Inl not_connected
   \<and> fst (get_current_low_peak disconnected) = Inr None"
  using measurement_failures[where st = "connected_with [Ack, Raise timed_out]" and k = 1
      and r = "the (sa (connected_with [Ack, Raise timed_out]))"]
    measurement_failures[where st = "connected_with [Ack, Text ''1'', Raise timed_out]" and k = 2
      and r = "the (sa (connected_with [Ack, Text ''1'', Raise timed_out]))"
      and sr = None and sf = None and ro = None]
    measurement_failures[where st = "connected_with [Ack, Ack, Text ''1'', Raise timed_out]"
      and k = 3 and x = 1
      and r = "the (sa (connected_with [Ack, Ack, Text ''1'', Raise timed_out]))"]
    measurement_failures[where st = disconnected and x = 1]
  by (simp add: connected_with_def disconnected_def step_fails_def)

text \<open>
  Claim C5. Without a session every measurement operation is to fail with
  \<^verbatim>\<open>ValueError("Analyzer not connected")\<close>. \<^verbatim>\<open>get_band_power\<close> does, from its guard before
  the \<^verbatim>\<open>try\<close>. The peak searches and \<^verbatim>\<open>read_obwidth\<close> have no such guard: on the object
  before \<^verbatim>\<open>connect\<close> the exception their first \<^verbatim>\<open>write\<close> raises is caught by their own
  \<^verbatim>\<open>except\<close>, and they return \<open>None\<close>.
\<close>

theorem measurement_disconnected:
  "sa disconnected = None
   \<and> fst (get_band_power 1000000 disconnected) = Inl not_connected
   \<and> fst (get_current_high_peak disconnected) = Inr None
   \<and> fst (get_current_low_peak disconnected) = Inr None
   \<and> fst (read_obwidth (Some 1000) (Some 7) (Some 0.35) disconnected) = Inr None
   \<and> fst (read_obwidth None None None disconnected) = Inr None"
  by (simp add: disconnected_def get_band_power_def get_current_high_peak_def
      get_current_low_peak_def read_obwidth_def none_on_error_def and_then_def write_cmd_def)

text \<open>
  Claim C7. On a connected session whose first five band power steps go through, a failing
  mode selection (an exception, an answer of the wrong kind, or no answer) does not end
  the sequence: \<^verbatim>\<open>CALC:MARK1:Y?\<close> is still sent, as the seventh and last command, and the
  operation returns what that query yields, its text or \<open>None\<close> when it fails too.
\<close>

theorem band_power_survives_bpow_failure:
  assumes "sa st = Some r"
    and "pending r = Ack # Ack # Text status # Ack # Text span_rb # tail"
    and "tail = [] \<or> (\<forall>s. hd tail \<noteq> Text s)"
  shows "fst (get_band_power x st)
           = (case tl tail of Text pw # _ \<Rightarrow> Inr (Some (strip pw)) | _ \<Rightarrow> Inr None)
       \<and> sa (snd (get_band_power x st))
           = Some (r\<lparr>pending := tl (tl tail),
                     sent := sent r @ map (Pair 10000)
                       [Cmd ''CALC:MARK1:STAT ON'', Cmd ''CALC:MARK1:FUNC:BAND ON'',
                        Cmd ''CALC:MARK1:FUNC?'', CmdNum ''CALC:MARK1:FUNC:BAND:SPAN '' x [],
                        Cmd ''CALC:MARK1:FUNC:BAND:SPAN?'', Cmd ''CALC:MARK:FUNC BPOW'',
                        Cmd ''CALC:MARK1:Y?'']\<rparr>)"
proof (cases tail)
  case Nil
  with assms(1,2) show ?thesis
    by (simp add: get_band_power_def band_power_steps_def chan)
next
  case (Cons bpow tail')
  show ?thesis
  proof (cases tail')
    case Nil
    with Cons assms(1,2) show ?thesis
      by (simp add: get_band_power_def band_power_steps_def chan split: sum.splits)
  next
    case (Cons final rest)
    with \<open>tail = bpow # tail'\<close> assms(1,2) show ?thesis
      by (cases final)
        (simp_all add: get_band_power_def band_power_steps_def chan split: sum.splits)
  qed
qed

theorem band_power_survives_bpow_failure_witness:
  "fst (get_band_power 1000
         (connected_with [Ack, Ack, Text ''BPOW'', Ack, Text ''1000'', Raise timed_out,
                          Text ''-42.5 '', Text ''later'']))
     = Inr (Some ''-42.5'')"
  using band_power_survives_bpow_failure
    [where st = "connected_with [Ack, Ack, Text ''BPOW'', Ack, Text ''1000'', Raise timed_out,
                                 Text ''-42.5 '', Text ''later'']"
       and x = 1000 and status = "''BPOW''" and span_rb = "''1000''"
       and tail = "[Raise timed_out, Text ''-42.5 '', Text ''later'']"]
  by (simp add: connected_with_def strip_def is_space_def)

text \<open>
  Claim C3. The first command \<^verbatim>\<open>read_obwidth\<close> sends on a connected session sets the span to
  \<open>span_hz\<close>, which is symbol rate \<open>\<times> 1000 \<times>\<close> spread factor \<open>\<times> (1 +\<close> roll-off\<open>) \<times> 2\<close> when
  all three are given (18,900,000 for 1000, 7 and 0.35) and 10,000,000 when one is absent.
\<close>

theorem read_obwidth_span:
  "(sa st = Some r \<longrightarrow>
      (\<exists>r'. sa (snd (read_obwidth sr sf ro st)) = Some r'
        \<and> length (sent r) < length (sent r')
        \<and> sent r' ! length (sent r)
            = (timeout r, CmdNum '':SENSe:OBWidth:FREQ:SPAN '' (span_hz sr sf ro) '' Hz'')))
   \<and> span_hz (Some a) (Some b) (Some c) = a * 1000 * real_of_int b * (1 + c) * 2
   \<and> (sr = None \<or> sf = None \<or> ro = None \<longrightarrow> span_hz sr sf ro = 10000000)
   \<and> span_hz (Some 1000) (Some 7) (Some 0.35) = 18900000"
proof (intro conjI impI)
  assume r: "sa st = Some r"
  define c0 where "c0 = CmdNum '':SENSe:OBWidth:FREQ:SPAN '' (span_hz sr sf ro) '' Hz''"
  show "\<exists>r'. sa (snd (read_obwidth sr sf ro st)) = Some r'
        \<and> length (sent r) < length (sent r')
        \<and> sent r' ! length (sent r)
            = (timeout r, CmdNum '':SENSe:OBWidth:FREQ:SPAN '' (span_hz sr sf ro) '' Hz'')"
    unfolding c0_def[symmetric] read_obwidth_def
    using r
    by (auto simp: chan nth_append split: list.splits sum.splits prod.splits)
qed (simp_all add: span_hz_def)

theorem read_obwidth_span_witness:
  "(\<exists>r'. sa (snd (read_obwidth (Some 1000) (Some 7) (Some 0.35)
                   (connected_with [Ack, Text ''18900000'', Text ''1.2E6'']))) = Some r'
        \<and> sent r' ! 0 = (5000, CmdNum '':SENSe:OBWidth:FREQ:SPAN '' 18900000 '' Hz''))
   \<and> (\<exists>r'. sa (snd (read_obwidth (Some 1000) None (Some 0.35)
                   (connected_with [Ack, Text ''10000000'', Text ''1.2E6'']))) = Some r'
        \<and> sent r' ! 0 = (5000, CmdNum '':SENSe:OBWidth:FREQ:SPAN '' 10000000 '' Hz''))"
proof -
  have c: "sa (connected_with rs)
             = Some \<lparr>timeout = 5000, chunk_size = Some 20480, pending = rs, sent = []\<rparr>" for rs
    by (simp add: connected_with_def)
  from read_obwidth_span
    [where st = "connected_with [Ack, Text ''18900000'', Text ''1.2E6'']"
       and sr = "Some 1000" and sf = "Some 7" and ro = "Some 0.35"
       and a = 1000 and b = 7 and c = "0.35", THEN conjunct1, rule_format, OF c]
    read_obwidth_span
    [where st = "connected_with [Ack, Text ''10000000'', Text ''1.2E6'']"
       and sr = "Some 1000" and sf = None and ro = "Some 0.35"
       and a = 1000 and b = 7 and c = "0.35", THEN conjunct1, rule_format, OF c]
  show ?thesis
    by (auto simp: span_hz_def)
qed


section \<open>Claims about trace acquisition\<close>

lemma length_linspace: "length (linspace a b n) = n"
  by (simp add: linspace_def)

lemma nth_linspace:
  assumes "i < n"
  shows "linspace a b n ! i = a + real i * (b - a) / real (n - 1)"
proof (cases "n = 1")
  case True
  with assms show ?thesis by (simp add: linspace_def)
next
  case False
  with assms have n: "2 \<le> n" by simp
  show ?thesis
  proof (cases "i < n - 1")
    case True
    with n show ?thesis by (simp add: linspace_def nth_append)
  next
    case False
    with assms have i: "i = n - 1" by simp
    have "real (n - 1) \<noteq> 0" using n by simp
    then have "a + real (n - 1) * (b - a) / real (n - 1) = b" by simp
    with n i show ?thesis by (simp add: linspace_def nth_append)
  qed
qed

lemmas chanq = query_binary_values_def sa_query_binary_values_def get_center_frequency_def
  get_span_def

lemma fetch_trace_run:
  assumes "sa st = Some r"
    and "pending r = fmt @ q # Values (Some trace) # Text cf_text # Text span_text # rest"
    and "(\<exists>x. fmt = [Ack, x]) \<or> (\<exists>y. fmt = [y] \<and> y \<noteq> Ack)"
    and "trace \<noteq> []"
    and "float_or float 0 (strip cf_text) = Inr cf"
    and "float_or float 1 (strip span_text) = Inr sp"
  shows "fst (fetch_trace float name st)
           = Inr (linspace (cf - sp / 2) (cf + sp / 2) (length trace), trace)"
proof -
  have pts: "nat (if int (length trace) \<noteq> p then int (length trace) else p) = length trace" for p
    by auto
  from assms(3) show ?thesis
  proof (elim disjE exE conjE)
    fix x assume "fmt = [Ack, x]"
    with assms(1,2,4,5,6) show ?thesis
      by (cases q; cases x)
        (simp_all add: fetch_trace_def chan chanq pts split: sum.splits prod.splits)
  next
    fix y assume "fmt = [y]" "y \<noteq> Ack"
    with assms(1,2,4,5,6) show ?thesis
      by (cases q; cases y)
        (simp_all add: fetch_trace_def chan chanq pts split: sum.splits prod.splits)
  qed
qed


lemma linspace_example:
  "linspace (1000000000 - 2000000 / 2) (1000000000 + 2000000 / 2) 5
     = [999000000, 999500000, 1000000000, 1000500000, 1001000000]"
  by (simp add: linspace_def upt_rec)

text \<open>
  Claim C2. A trace fetch that decodes \<open>N > 0\<close> samples returns a frequency axis of length
  \<open>N\<close> whatever the instrument answered to \<^verbatim>\<open>SWE:POIN?\<close> (the entry \<open>q\<close>: a point count
  \<open>P \<noteq> N\<close>, or anything else), with \<open>freq[i] = cf - span/2 + i * span/(N-1)\<close>; for
  \<open>cf = 1e9\<close>, \<open>span = 2e6\<close> and \<open>N = 5\<close> the axis is 0.999e9, 0.9995e9, 1e9, 1.0005e9,
  1.001e9. The format writes before may succeed or fail (\<open>fmt\<close>).
\<close>

theorem fetch_trace_axis:
  assumes "sa st = Some r"
    and "pending r = fmt @ q # Values (Some trace) # Text cf_text # Text span_text # rest"
    and "(\<exists>x. fmt = [Ack, x]) \<or> (\<exists>y. fmt = [y] \<and> y \<noteq> Ack)"
    and "trace \<noteq> []"
    and "strip cf_text \<noteq> []" and "float (strip cf_text) = Inr cf"
    and "strip span_text \<noteq> []" and "float (strip span_text) = Inr sp"
  shows "\<exists>freqs. fst (fetch_trace float name st) = Inr (freqs, trace)
           \<and> length freqs = length trace
           \<and> (\<forall>i < length trace.
                 freqs ! i = cf - sp / 2 + real i * sp / real (length trace - 1))
           \<and> (cf = 1000000000 \<and> sp = 2000000 \<and> length trace = 5 \<longrightarrow>
                 freqs = [999000000, 999500000, 1000000000, 1000500000, 1001000000])"
proof -
  have run: "fst (fetch_trace float name st)
               = Inr (linspace (cf - sp / 2) (cf + sp / 2) (length trace), trace)"
    using assms by (intro fetch_trace_run[where q = q]) (auto simp: float_or_def)
  have "cf + sp / 2 - (cf - sp / 2) = sp" by simp
  then have nth: "\<forall>i < length trace.
      linspace (cf - sp / 2) (cf + sp / 2) (length trace) ! i
        = cf - sp / 2 + real i * sp / real (length trace - 1)"
    by (simp add: nth_linspace)
  show ?thesis
    using run nth linspace_example by (auto simp: length_linspace)
qed

theorem fetch_trace_axis_witness:
  "fst (fetch_trace (float_table [(''1001'', 1001), (''1E9'', 1000000000), (''2E6'', 2000000)])
          ''TRACE1''
          (connected_with [Ack, Ack, Text ''1001'', Values (Some [-70, -65, -20, -64, -71]),
                           Text ''1E9 '', Text ''2E6 '']))
     = Inr ([999000000, 999500000, 1000000000, 1000500000, 1001000000],
            [-70, -65, -20, -64, -71])"
proof -
  have c: "sa (connected_with rs)
             = Some \<lparr>timeout = 5000, chunk_size = Some 20480, pending = rs, sent = []\<rparr>" for rs
    by (simp add: connected_with_def)
  have s: "strip ''1E9 '' = ''1E9''" "strip ''2E6 '' = ''2E6''"
    by (simp_all add: strip_def is_space_def)
  from fetch_trace_axis
    [where float = "float_table [(''1001'', 1001), (''1E9'', 1000000000), (''2E6'', 2000000)]"
       and name = "''TRACE1''" and fmt = "[Ack, Ack]" and q = "Text ''1001''"
       and trace = "[-70, -65, -20, -64, -71]" and cf_text = "''1E9 ''"
       and span_text = "''2E6 ''" and rest = "[]" and cf = 1000000000 and sp = 2000000,
     OF c]
  show ?thesis
    by (auto simp: s float_table_def)
qed

text \<open>A readback that raises is not defaulted: the exception leaves \<^verbatim>\<open>fetch_trace\<close>.\<close>

lemma fetch_trace_cf_raises:
  assumes "sa st = Some r"
    and "pending r = fmt @ q # Values (Some trace) # Raise e # rest"
    and "(\<exists>x. fmt = [Ack, x]) \<or> (\<exists>y. fmt = [y] \<and> y \<noteq> Ack)"
    and "trace \<noteq> []"
  shows "fst (fetch_trace float name st) = Inl e"
proof -
  from assms(3) show ?thesis
  proof (elim disjE exE conjE)
    fix x assume "fmt = [Ack, x]"
    with assms(1,2,4) show ?thesis
      by (cases q; cases x)
        (simp_all add: fetch_trace_def chan chanq split: sum.splits prod.splits)
  next
    fix y assume "fmt = [y]" "y \<noteq> Ack"
    with assms(1,2,4) show ?thesis
      by (cases q; cases y)
        (simp_all add: fetch_trace_def chan chanq split: sum.splits prod.splits)
  qed
qed

lemma fetch_trace_span_raises:
  assumes "sa st = Some r"
    and "pending r = fmt @ q # Values (Some trace) # Text cf_text # Raise e # rest"
    and "(\<exists>x. fmt = [Ack, x]) \<or> (\<exists>y. fmt = [y] \<and> y \<noteq> Ack)"
    and "trace \<noteq> []"
    and "float_or float 0 (strip cf_text) = Inr cf"
  shows "fst (fetch_trace float name st) = Inl e"
proof -
  from assms(3) show ?thesis
  proof (elim disjE exE conjE)
    fix x assume "fmt = [Ack, x]"
    with assms(1,2,4,5) show ?thesis
      by (cases q; cases x)
        (simp_all add: fetch_trace_def chan chanq split: sum.splits prod.splits)
  next
    fix y assume "fmt = [y]" "y \<noteq> Ack"
    with assms(1,2,4,5) show ?thesis
      by (cases q; cases y)
        (simp_all add: fetch_trace_def chan chanq split: sum.splits prod.splits)
  qed
qed

text \<open>
  Claim C9, as the code has it. When the center frequency readback comes back empty, the
  axis is built around 0 Hz; when the span readback comes back empty, with a span of 1 Hz;
  the trace is returned in each case, the other readback being empty as well or a number.
  A readback that raises is not replaced by the default: the fetch fails with that
  exception, also when the other readback was defaulted.
\<close>

theorem fetch_trace_defaults:
  assumes "sa st = Some r"
    and "pending r = fmt @ q # Values (Some trace) # cf_reply # span_reply # rest"
    and "(\<exists>x. fmt = [Ack, x]) \<or> (\<exists>y. fmt = [y] \<and> y \<noteq> Ack)"
    and "trace \<noteq> []"
  shows "(cf_reply = Text cf_text \<and> span_reply = Text span_text \<and> strip cf_text = []
            \<and> strip span_text \<noteq> [] \<and> float (strip span_text) = Inr sp \<longrightarrow>
            fst (fetch_trace float name st)
              = Inr (linspace (0 - sp / 2) (0 + sp / 2) (length trace), trace))
       \<and> (cf_reply = Text cf_text \<and> span_reply = Text span_text \<and> strip span_text = []
            \<and> strip cf_text \<noteq> [] \<and> float (strip cf_text) = Inr cf \<longrightarrow>
            fst (fetch_trace float name st)
              = Inr (linspace (cf - 1 / 2) (cf + 1 / 2) (length trace), trace))
       \<and> (cf_reply = Text cf_text \<and> span_reply = Text span_text \<and> strip cf_text = []
            \<and> strip span_text = [] \<longrightarrow>
            fst (fetch_trace float name st)
              = Inr (linspace (0 - 1 / 2) (0 + 1 / 2) (length trace), trace))
       \<and> (cf_reply = Raise e \<longrightarrow> fst (fetch_trace float name st) = Inl e)
       \<and> (cf_reply = Text cf_text \<and> strip cf_text = [] \<and> span_reply = Raise e \<longrightarrow>
            fst (fetch_trace float name st) = Inl e)"
proof (intro conjI impI)
  assume a: "cf_reply = Text cf_text \<and> span_reply = Text span_text \<and> strip cf_text = []
            \<and> strip span_text \<noteq> [] \<and> float (strip span_text) = Inr sp"
  with assms(2) have p: "pending r = fmt @ q # Values (Some trace) # Text cf_text # Text span_text # rest"
    by simp
  show "fst (fetch_trace float name st)
          = Inr (linspace (0 - sp / 2) (0 + sp / 2) (length trace), trace)"
    using a by (intro fetch_trace_run[OF assms(1) p assms(3,4)]) (simp_all add: float_or_def)
next
  assume a: "cf_reply = Text cf_text \<and> span_reply = Text span_text \<and> strip span_text = []
            \<and> strip cf_text \<noteq> [] \<and> float (strip cf_text) = Inr cf"
  with assms(2) have p: "pending r = fmt @ q # Values (Some trace) # Text cf_text # Text span_text # rest"
    by simp
  show "fst (fetch_trace float name st)
          = Inr (linspace (cf - 1 / 2) (cf + 1 / 2) (length trace), trace)"
    using a by (intro fetch_trace_run[OF assms(1) p assms(3,4)]) (simp_all add: float_or_def)
next
  assume a: "cf_reply = Text cf_text \<and> span_reply = Text span_text \<and> strip cf_text = []
            \<and> strip span_text = []"
  with assms(2) have p: "pending r = fmt @ q # Values (Some trace) # Text cf_text # Text span_text # rest"
    by simp
  show "fst (fetch_trace float name st)
          = Inr (linspace (0 - 1 / 2) (0 + 1 / 2) (length trace), trace)"
    using a by (intro fetch_trace_run[OF assms(1) p assms(3,4)]) (simp_all add: float_or_def)
next
  assume "cf_reply = Raise e"
  with assms(2) have "pending r = fmt @ q # Values (Some trace) # Raise e # span_reply # rest"
    by simp
  from fetch_trace_cf_raises[OF assms(1) this assms(3,4)]
  show "fst (fetch_trace float name st) = Inl e" .
next
  assume a: "cf_reply = Text cf_text \<and> strip cf_text = [] \<and> span_reply = Raise e"
  with assms(2) have p: "pending r = fmt @ q # Values (Some trace) # Text cf_text # Raise e # rest"
    by simp
  show "fst (fetch_trace float name st) = Inl e"
    using a by (intro fetch_trace_span_raises[OF assms(1) p assms(3,4), where cf = 0])
      (simp add: float_or_def)
qed

theorem fetch_trace_defaults_witness:
  "fst (fetch_trace (float_table [(''2E6'', 2000000)]) ''TRACE1''
          (connected_with [Ack, Ack, Text ''3'', Values (Some [-70, -20, -71]),
                           Text '' '', Text ''2E6'']))
     = Inr ([-1000000, 0, 1000000], [-70, -20, -71])
   \<and> fst (fetch_trace (float_table [(''1E9'', 1000000000)]) ''TRACE1''
          (connected_with [Ack, Ack, Text ''3'', Values (Some [-70, -20, -71]),
                           Text ''1E9'', Text []]))
     = Inr ([999999999.5, 1000000000, 1000000000.5], [-70, -20, -71])
   \<and> fst (fetch_trace (float_table [(''2E6'', 2000000)]) ''TRACE1''
          (connected_with [Ack, Ack, Text ''3'', Values (Some [-70, -20, -71]),
                           Text '' '', Raise timed_out]))
     = Inl timed_out"
proof -
  have c: "sa (connected_with rs)
             = Some \<lparr>timeout = 5000, chunk_size = Some 20480, pending = rs, sent = []\<rparr>" for rs
    by (simp add: connected_with_def)
  have s: "strip '' '' = []" "strip ''2E6'' = ''2E6''" "strip ''1E9'' = ''1E9''" "strip [] = []"
    by (simp_all add: strip_def is_space_def)
  from fetch_trace_defaults
    [where float = "float_table [(''2E6'', 2000000)]"
       and name = "''TRACE1''" and fmt = "[Ack, Ack]" and q = "Text ''3''"
       and trace = "[-70, -20, -71]" and cf_reply = "Text '' ''" and cf_text = "'' ''"
       and span_reply = "Text ''2E6''" and span_text = "''2E6''" and rest = "[]"
       and sp = 2000000 and cf = 0 and e = timed_out,
     OF c]
    fetch_trace_defaults
    [where float = "float_table [(''1E9'', 1000000000)]"
       and name = "''TRACE1''" and fmt = "[Ack, Ack]" and q = "Text ''3''"
       and trace = "[-70, -20, -71]" and cf_reply = "Text ''1E9''" and cf_text = "''1E9''"
       and span_reply = "Text []" and span_text = "[]" and rest = "[]"
       and sp = 0 and cf = 1000000000 and e = timed_out,
     OF c]
    fetch_trace_defaults
    [where float = "float_table [(''2E6'', 2000000)]"
       and name = "''TRACE1''" and fmt = "[Ack, Ack]" and q = "Text ''3''"
       and trace = "[-70, -20, -71]" and cf_reply = "Text '' ''" and cf_text = "'' ''"
       and span_reply = "Raise timed_out" and span_text = "[]" and rest = "[]"
       and sp = 0 and cf = 0 and e = timed_out,
     OF c]
  show ?thesis
    by (simp add: s float_table_def linspace_def upt_rec)
qed

text \<open>
  The claim as first stated, that the fetch returns a trace whenever a readback is
  unavailable, is false for a readback that times out.
\<close>

theorem fetch_trace_readback_timeout_counterexample:
  "fst (fetch_trace (float_table [(''2E6'', 2000000)]) ''TRACE1''
          (connected_with [Ack, Ack, Text ''3'', Values (Some [-70, -20, -71]),
                           Raise timed_out, Text ''2E6'']))
     = Inl timed_out"
proof -
  have c: "sa (connected_with rs)
             = Some \<lparr>timeout = 5000, chunk_size = Some 20480, pending = rs, sent = []\<rparr>" for rs
    by (simp add: connected_with_def)
  show ?thesis
    by (rule fetch_trace_cf_raises
        [where fmt = "[Ack, Ack]" and q = "Text ''3''" and e = timed_out
           and rest = "[Text ''2E6'']" and trace = "[-70, -20, -71]", OF c])
      auto
qed

section \<open>Claims about the overrides of timeout and chunk size\<close>

lemma kept_refl: "kept st st"
  by (simp add: kept_def option.rel_refl)

lemma kept_trans: "kept a b \<Longrightarrow> kept b c \<Longrightarrow> kept a c"
  by (cases "sa a"; cases "sa b"; cases "sa c") (auto simp: kept_def getattr_chunk_size_def)

lemma kept_files [simp]: "kept st (st'\<lparr>files := f\<rparr>) = kept st st'"
  "kept st (st'\<lparr>printed := p\<rparr>) = kept st st'"
  by (simp_all add: kept_def)

lemma write_cmd_kept: "kept st (snd (write_cmd c st))"
  by (cases "sa st")
    (auto simp: kept_def write_cmd_def sa_write_def exchange_def log_cmd_def Let_def
      getattr_chunk_size_def split: list.splits prod.splits)

lemma query_kept: "kept st (snd (query c st))"
  by (cases "sa st")
    (auto simp: kept_def query_def sa_query_def exchange_def log_cmd_def Let_def
      getattr_chunk_size_def split: list.splits prod.splits sum.splits)

lemma wait_for_opc_kept: "kept st (snd (wait_for_opc st))"
  using query_kept[of st "Cmd ''*OPC?''"]
  by (auto simp: wait_for_opc_def split: prod.splits)

lemma and_then_kept:
  assumes "\<And>st. kept st (snd (m st))" and "\<And>a st. kept st (snd (f a st))"
  shows "kept st (snd (and_then m f st))"
proof (cases "m st")
  case (Pair res st1)
  with assms(1)[of st] have 1: "kept st st1" by simp
  show ?thesis
  proof (cases res)
    case (Inl e)
    with Pair 1 show ?thesis by (simp add: and_then_def)
  next
    case (Inr a)
    with Pair have "and_then m f st = f a st1" by (simp add: and_then_def)
    with assms(2)[of st1 a] 1 show ?thesis by (auto intro: kept_trans)
  qed
qed

lemma none_on_error_kept:
  assumes "\<And>st. kept st (snd (m st))"
  shows "kept st (snd (none_on_error m st))"
  using assms[of st] by (auto simp: none_on_error_def split: prod.splits sum.splits)

lemma warn_on_error_kept:
  assumes "\<And>st. kept st (snd (m st))"
  shows "kept st (snd (warn_on_error m st))"
  using assms[of st] by (auto simp: warn_on_error_def split: prod.splits)

lemma band_power_steps_kept: "kept st (snd (band_power_steps x st))"
  unfolding band_power_steps_def
  by (intro and_then_kept warn_on_error_kept write_cmd_kept query_kept)

lemma keptD:
  assumes "kept st st'" and "sa st = Some r"
  shows "\<exists>r'. sa st' = Some r' \<and> timeout r' = timeout r
           \<and> getattr_chunk_size r' = getattr_chunk_size r
           \<and> (chunk_size r \<noteq> None \<longrightarrow> chunk_size r' = chunk_size r)"
  using assms by (cases "sa st'") (auto simp: kept_def)

lemma set_timeout_back:
  assumes "sa st = Some r" and "kept (set_timeout t st) st2"
  shows "kept st (set_timeout (timeout r) st2)"
  using assms by (cases "sa st2") (auto simp: kept_def set_timeout_def getattr_chunk_size_def)

lemma band_power_kept:
  assumes "sa st = Some r"
  shows "kept st (snd (get_band_power x st))"
proof -
  obtain res st2 where run: "none_on_error (band_power_steps x) (set_timeout 10000 st) = (res, st2)"
    by (cases "none_on_error (band_power_steps x) (set_timeout 10000 st)")
  have "kept (set_timeout 10000 st) st2"
    using none_on_error_kept[of "band_power_steps x" "set_timeout 10000 st",
        OF band_power_steps_kept] run by simp
  from set_timeout_back[OF assms this] run show ?thesis
    by (simp add: get_band_power_def assms Let_def)
qed

lemma read_ieee_block_connected:
  "read_ieee_block st = Some (res, st') \<Longrightarrow> sa st \<noteq> None \<Longrightarrow> sa st' \<noteq> None"
  by (auto simp: read_ieee_block_def split: option.splits prod.splits)

lemma write_cmd_connected: "sa st \<noteq> None \<Longrightarrow> sa (snd (write_cmd c st)) \<noteq> None"
  using write_cmd_kept[of st c] by (auto simp: kept_def elim: option.rel_cases)

lemma fetch_file_connected:
  assumes "fetch_file lf p st = Some (res, st')" and "sa st \<noteq> None"
  shows "sa st' \<noteq> None"
proof (cases "write_cmd (Cmd ('':MMEM:DATA? '' @ quoted p)) st")
  case (Pair w st1)
  with write_cmd_connected[OF assms(2), of "Cmd ('':MMEM:DATA? '' @ quoted p)"]
  have c1: "sa st1 \<noteq> None" by simp
  show ?thesis
  proof (cases w)
    case (Inl e)
    with Pair assms(1) c1 show ?thesis by (simp add: fetch_file_def)
  next
    case (Inr u)
    with Pair assms(1) obtain b st2 where rd: "read_ieee_block st1 = Some (b, st2)"
      by (auto simp: fetch_file_def split: option.splits)
    from read_ieee_block_connected[OF rd c1] have c2: "sa st2 \<noteq> None" .
    from Inr Pair assms(1) rd c2 show ?thesis
      by (cases b) (auto simp: fetch_file_def write_file_def split: if_splits)
  qed
qed

lemma transfer_restores:
  assumes "transfer lf p st = Some (out, st')" and "sa st = Some r"
  shows "\<exists>r'. sa st' = Some r' \<and> timeout r' = timeout r
           \<and> chunk_size r' = Some (getattr_chunk_size r)"
proof -
  define st1 where "st1 = set_chunk_size 1048576 (set_timeout 120000 st)"
  have c1: "sa st1 \<noteq> None" by (simp add: st1_def set_chunk_size_def set_timeout_def assms(2))
  from assms obtain res st2 where f: "fetch_file lf p st1 = Some (res, st2)"
    and st': "st' = set_chunk_size (getattr_chunk_size r) (set_timeout (timeout r) st2)"
    by (auto simp: transfer_def Let_def st1_def split: option.splits)
  from fetch_file_connected[OF f c1] obtain r2 where "sa st2 = Some r2" by auto
  then show ?thesis by (simp add: st' set_chunk_size_def set_timeout_def)
qed

lemma transfer_kept:
  assumes "transfer lf p st = Some (out, st')"
  shows "kept st st'"
proof (cases "sa st")
  case None
  with assms show ?thesis by (simp add: transfer_def kept_refl)
next
  case (Some r)
  from transfer_restores[OF assms Some] Some show ?thesis
    by (auto simp: kept_def getattr_chunk_size_def split: option.splits)
qed

lemma attempt_kept:
  assumes "attempt ts lf subdir st = Some (out, st')"
  shows "kept st st'"
proof -
  define c1 where "c1 = Cmd ('':MMEM:STOR:SCR '' @ quoted (remote_path ts subdir))"
  define c3 where "c3 = Cmd ('':MMEM:CAT? '' @ quoted subdir)"
  obtain w st1 where w: "write_cmd c1 st = (w, st1)" by (cases "write_cmd c1 st")
  obtain ores st2 where o: "wait_for_opc st1 = (ores, st2)" by (cases "wait_for_opc st1")
  obtain q st3 where q: "query c3 st2 = (q, st3)" by (cases "query c3 st2")
  have k1: "kept st st1" using write_cmd_kept[of st c1] w by simp
  have k2: "kept st1 st2" using wait_for_opc_kept[of st1] o by simp
  have k3: "kept st2 st3" using query_kept[of st2 c3] q by simp
  note k12 = kept_trans[OF k1 k2]
  note k123 = kept_trans[OF k12 k3]
  show ?thesis
  proof (cases w)
    case (Inl e)
    with assms w k1 show ?thesis by (simp add: attempt_def c1_def)
  next
    case wr: (Inr u)
    show ?thesis
    proof (cases ores)
      case (Inl e)
      with assms w wr o k12 show ?thesis by (simp add: attempt_def c1_def)
    next
      case op: (Inr u')
      from assms w wr o op q
      have "(out, st') = (Absent, st3) \<or> transfer lf (remote_path ts subdir) st3 = Some (out, st')"
        by (cases q) (auto simp: attempt_def c1_def c3_def split: if_splits)
      then show ?thesis
        using k123 transfer_kept kept_trans by blast
    qed
  qed
qed

lemma capture_loop_kept:
  "capture_loop ts lf le cands st = Some (res, le', st') \<Longrightarrow> kept st st'"
proof (induction cands arbitrary: le st)
  case Nil
  then show ?case by (simp add: kept_refl)
next
  case (Cons c cands)
  obtain subdir desc where c: "c = (subdir, desc)" by (cases c)
  from Cons.prems c obtain out st1 where a: "attempt ts lf subdir st = Some (out, st1)"
    by (auto split: option.splits)
  note k = attempt_kept[OF a]
  show ?case
  proof (cases out)
    case (Returned l p)
    with Cons.prems c a k show ?thesis by simp
  next
    case Absent
    with Cons.prems c a have "capture_loop ts lf le cands st1 = Some (res, le', st')" by simp
    from Cons.IH[OF this] k show ?thesis by (rule kept_trans[rotated])
  next
    case (Caught e)
    with Cons.prems c a have "capture_loop ts lf (Some e) cands st1 = Some (res, le', st')" by simp
    from Cons.IH[OF this] k show ?thesis by (rule kept_trans[rotated])
  qed
qed

lemma capture_screen_over_kept:
  assumes "capture_screen_over cands ts lfo st = Some (res, st')"
  shows "kept st st'"
proof (cases "sa st")
  case None
  with assms show ?thesis by (simp add: capture_screen_over_def kept_refl)
next
  case (Some r)
  define lf where "lf = (case lfo of None \<Rightarrow> ''screenshot_'' @ ts @ ''.png'' | Some name \<Rightarrow> name)"
  from assms Some obtain got le st1 where l: "capture_loop ts lf None cands st = Some (got, le, st1)"
    and st': "st' = st1 \<or> st' = st1\<lparr>printed := printed st1 @ [le]\<rparr>"
    by (auto simp: capture_screen_over_def lf_def Let_def split: option.splits)
  from capture_loop_kept[OF l] st' show ?thesis by auto
qed

text \<open>
  Claim C4. On a connected session, the timeout after \<^verbatim>\<open>get_band_power\<close> is the timeout
  before it, whatever the transport did; and whenever the transfer step of the screenshot,
  or the whole \<^verbatim>\<open>capture_screen\<close>, comes back (with a file or with a caught error), the
  timeout is the one before and the chunk size is the one the code read before.
\<close>

theorem overrides_restored:
  assumes "sa st = Some r"
  shows "(\<exists>r'. sa (snd (get_band_power x st)) = Some r' \<and> timeout r' = timeout r)
       \<and> (\<forall>out st'. transfer lf p st = Some (out, st') \<longrightarrow>
            (\<exists>r'. sa st' = Some r' \<and> timeout r' = timeout r
                \<and> chunk_size r' = Some (getattr_chunk_size r)))
       \<and> (\<forall>res st'. capture_screen ts lfo st = Some (res, st') \<longrightarrow>
            (\<exists>r'. sa st' = Some r' \<and> timeout r' = timeout r
                \<and> getattr_chunk_size r' = getattr_chunk_size r
                \<and> (chunk_size r \<noteq> None \<longrightarrow> chunk_size r' = chunk_size r)))"
proof (intro conjI allI impI)
  show "\<exists>r'. sa (snd (get_band_power x st)) = Some r' \<and> timeout r' = timeout r"
    using keptD[OF band_power_kept[OF assms] assms] by blast
next
  fix out st'
  assume "transfer lf p st = Some (out, st')"
  from transfer_restores[OF this assms]
  show "\<exists>r'. sa st' = Some r' \<and> timeout r' = timeout r
          \<and> chunk_size r' = Some (getattr_chunk_size r)" .
next
  fix res st'
  assume "capture_screen ts lfo st = Some (res, st')"
  then have "kept st st'" by (simp add: capture_screen_def capture_screen_over_kept)
  from keptD[OF this assms]
  show "\<exists>r'. sa st' = Some r' \<and> timeout r' = timeout r
          \<and> getattr_chunk_size r' = getattr_chunk_size r
          \<and> (chunk_size r \<noteq> None \<longrightarrow> chunk_size r' = chunk_size r)" .
qed


text \<open>Two transfers run in full: the override is in force while the file is requested.\<close>

lemmas run_defs = transfer_def fetch_file_def write_file_def read_ieee_block_def
  read_ieee_block_sa_def sa_read_bytes_def int_of_chr_def int_of_bytes_def unsigned_int_def
  strip_def is_space_def strip_int_blanks_def is_int_blank_def is_digit_def digit_val_def
  set_chunk_size_def getattr_chunk_size_def
  quoted_def write_cmd_def query_def sa_write_def sa_query_def exchange_def log_cmd_def
  set_timeout_def Let_def

lemma transfer_example:
  "transfer ''shot.png'' ''T.PNG'' (connected_with [Ack, Bytes ''#13'', Bytes ''PN'', Bytes ''G''])
     = Some (Returned ''shot.png'' ''T.PNG'',
         \<lparr>sa = Some \<lparr>timeout = 5000, chunk_size = Some 20480, pending = [],
                      sent = [(120000, Cmd ('':MMEM:DATA? '' @ quoted ''T.PNG''))]\<rparr>,
          files = (\<lambda>_. None)(''shot.png'' \<mapsto> ''PNG''), denied = [], printed = []\<rparr>)"
  by (simp add: run_defs connected_with_def read_payload.simps)

lemma transfer_failing_example:
  "transfer ''shot.png'' ''T.PNG'' (connected_with [Ack, Bytes ''#13'', Bytes ''PN''])
     = Some (Caught timed_out,
         \<lparr>sa = Some \<lparr>timeout = 5000, chunk_size = Some 20480, pending = [],
                      sent = [(120000, Cmd ('':MMEM:DATA? '' @ quoted ''T.PNG''))]\<rparr>,
          files = (\<lambda>_. None), denied = [], printed = []\<rparr>)"
  by (simp add: run_defs connected_with_def read_payload.simps)

theorem overrides_restored_witness:
  "(\<exists>r'. sa (snd (get_band_power 1000 (connected_with [Ack, Raise timed_out]))) = Some r'
        \<and> timeout r' = 5000)
   \<and> (\<exists>st' r'. transfer ''shot.png'' ''T.PNG''
                  (connected_with [Ack, Bytes ''#13'', Bytes ''PN'', Bytes ''G''])
                  = Some (Returned ''shot.png'' ''T.PNG'', st')
        \<and> sa st' = Some r' \<and> timeout r' = 5000 \<and> chunk_size r' = Some 20480
        \<and> sent r' = [(120000, Cmd ('':MMEM:DATA? '' @ quoted ''T.PNG''))])
   \<and> (\<exists>st' r'. transfer ''shot.png'' ''T.PNG''
                  (connected_with [Ack, Bytes ''#13'', Bytes ''PN''])
                  = Some (Caught timed_out, st')
        \<and> sa st' = Some r' \<and> timeout r' = 5000 \<and> chunk_size r' = Some 20480)"
proof -
  have c: "sa (connected_with rs)
             = Some \<lparr>timeout = 5000, chunk_size = Some 20480, pending = rs, sent = []\<rparr>" for rs
    by (simp add: connected_with_def)
  from overrides_restored
      [where st = "connected_with [Ack, Raise timed_out]" and x = 1000, OF c]
    overrides_restored
      [where st = "connected_with [Ack, Bytes ''#13'', Bytes ''PN'', Bytes ''G'']"
         and lf = "''shot.png''" and p = "''T.PNG''", OF c]
    overrides_restored
      [where st = "connected_with [Ack, Bytes ''#13'', Bytes ''PN'']"
         and lf = "''shot.png''" and p = "''T.PNG''", OF c]
  show ?thesis
    by (simp add: transfer_example transfer_failing_example getattr_chunk_size_def)
qed


section \<open>Claims about screenshot retrieval\<close>

lemma attempt_absent:
  assumes "sa st = Some r" and "pending r = Ack # Text opc # Text cat # script"
    and "\<not> contains (strip cat) (remote_name ts)"
  shows "attempt ts lf subdir st
           = Some (Absent, st\<lparr>sa := Some (r\<lparr>pending := script,
                                            sent := sent r @ round_log (timeout r) ts subdir\<rparr>)\<rparr>)"
  using assms
  by (simp add: attempt_def wait_for_opc_def write_cmd_def query_def sa_write_def sa_query_def
      exchange_def log_cmd_def Let_def round_log_def)

lemma failing_rounds_absent:
  assumes "length answers = length pre"
    and "\<forall>(opc, cat) \<in> set answers. \<not> contains (strip cat) (remote_name ts)"
    and "sa st = Some r" and "pending r = skipped_script answers @ script"
  shows "failing_rounds ts lf le pre st
           = Some (le, st\<lparr>sa := Some (r\<lparr>pending := script,
                     sent := sent r @ concat (map (\<lambda>(subdir, desc). round_log (timeout r) ts subdir) pre)\<rparr>)\<rparr>)"
  using assms
proof (induction answers pre arbitrary: st r rule: list_induct2)
  case Nil
  then show ?case by (simp add: skipped_script_def)
next
  case (Cons a answers c pre)
  obtain opc cat where a: "a = (opc, cat)" by (cases a)
  obtain subdir desc where c: "c = (subdir, desc)" by (cases c)
  define r1 where "r1 = r\<lparr>pending := skipped_script answers @ script,
                          sent := sent r @ round_log (timeout r) ts subdir\<rparr>"
  have p: "pending r = Ack # Text opc # Text cat # skipped_script answers @ script"
    using Cons.prems(3) by (simp add: skipped_script_def a)
  have n: "\<not> contains (strip cat) (remote_name ts)" using Cons.prems(1) a by simp
  have att: "attempt ts lf subdir st = Some (Absent, st\<lparr>sa := Some r1\<rparr>)"
    using attempt_absent[OF Cons.prems(2) p n] by (simp add: r1_def)
  have "failing_rounds ts lf le pre (st\<lparr>sa := Some r1\<rparr>)
          = Some (le, st\<lparr>sa := Some r1\<rparr>\<lparr>sa := Some (r1\<lparr>pending := script,
              sent := sent r1 @ concat (map (\<lambda>(subdir, desc). round_log (timeout r1) ts subdir) pre)\<rparr>)\<rparr>)"
    by (rule Cons.IH) (use Cons.prems in \<open>simp_all add: r1_def\<close>)
  then show ?case
    by (simp add: c att r1_def)
qed

lemma capture_loop_failing:
  "failing_rounds ts lf le pre st = Some (le', st') \<Longrightarrow>
   capture_loop ts lf le (pre @ post) st = capture_loop ts lf le' post st'"
proof (induction pre arbitrary: le st)
  case Nil
  then show ?case by simp
next
  case (Cons c pre)
  obtain subdir desc where c: "c = (subdir, desc)" by (cases c)
  from Cons.prems c obtain out st1 where a: "attempt ts lf subdir st = Some (out, st1)"
    by (auto split: option.splits)
  show ?case
  proof (cases out)
    case (Returned l p)
    with Cons.prems c a show ?thesis by simp
  next
    case Absent
    with Cons.prems c a Cons.IH[of le st1] show ?thesis by simp
  next
    case (Caught e)
    with Cons.prems c a Cons.IH[of "Some e" st1] show ?thesis by simp
  qed
qed

lemma transfer_returned:
  assumes "transfer lf p st = Some (Returned l q, st')"
  shows "l = lf \<and> q = p \<and> files st' lf \<noteq> None"
proof -
  from assms obtain r where r: "sa st = Some r"
    by (auto simp: transfer_def split: option.splits)
  define st1 where "st1 = set_chunk_size 1048576 (set_timeout 120000 st)"
  from assms r obtain res st2 where f: "fetch_file lf p st1 = Some (res, st2)"
    and out: "(case res of Inl e \<Rightarrow> Caught e | Inr _ \<Rightarrow> Returned lf p) = Returned l q"
    and st': "st' = set_chunk_size (getattr_chunk_size r) (set_timeout (timeout r) st2)"
    by (auto simp: transfer_def Let_def st1_def split: option.splits)
  from out obtain u where res: "res = Inr u" and lq: "l = lf" "q = p"
    by (cases res) auto
  from f res have "files st2 lf \<noteq> None"
    by (auto simp: fetch_file_def write_file_def split: prod.splits sum.splits option.splits if_splits)
  then show ?thesis
    by (simp add: lq st' set_chunk_size_def set_timeout_def)
qed

lemma attempt_returned:
  assumes "attempt ts lf subdir st = Some (Returned l p, st')"
  shows "l = lf \<and> p = remote_path ts subdir \<and> files st' lf \<noteq> None"
proof -
  from assms obtain st3 where "transfer lf (remote_path ts subdir) st3 = Some (Returned l p, st')"
    by (auto simp: attempt_def split: prod.splits sum.splits if_splits)
  from transfer_returned[OF this] show ?thesis .
qed


text \<open>
  Claim C6. On a connected session: when the first candidates \<open>pre\<close> each store, pass the
  barrier and list a directory without the file, they are all gone through in order, as the
  log shows, and the loop stands at the next candidate. When the candidates before one all
  fail and its round returns, the operation ends there with the local path and that
  candidate's remote path, the file written, whatever candidates follow. When all
  candidates fail, the result is \<^verbatim>\<open>(None, None)\<close> and the last exception caught is what the
  closing console line shows (the last candidate's own, if its round raised).
\<close>

theorem capture_screen_candidates:
  assumes "sa st = Some r"
    and "lf = (case lfo of None \<Rightarrow> ''screenshot_'' @ ts @ ''.png'' | Some name \<Rightarrow> name)"
  shows "(length answers = length pre
            \<and> (\<forall>(opc, cat) \<in> set answers. \<not> contains (strip cat) (remote_name ts))
            \<and> pending r = skipped_script answers @ script \<longrightarrow>
          failing_rounds ts lf None pre st
            = Some (None, st\<lparr>sa := Some (r\<lparr>pending := script,
                sent := sent r @ concat (map (\<lambda>(subdir, desc). round_log (timeout r) ts subdir) pre)\<rparr>)\<rparr>))
       \<and> (failing_rounds ts lf None pre st = Some (le, stm)
            \<and> attempt ts lf subdir stm = Some (Returned l p, st') \<longrightarrow>
          capture_screen_over (pre @ (subdir, desc) # post) ts lfo st
            = Some (Inr (Some l, Some p), st')
          \<and> l = lf \<and> p = remote_path ts subdir \<and> files st' lf \<noteq> None)
       \<and> (failing_rounds ts lf None pre st = Some (le, stm)
            \<and> attempt ts lf subdir stm = Some (Caught e, st') \<longrightarrow>
          capture_screen_over (pre @ [(subdir, desc)]) ts lfo st
            = Some (Inr (None, None), st'\<lparr>printed := printed st' @ [Some e]\<rparr>))
       \<and> (failing_rounds ts lf None cands st = Some (le, stm) \<longrightarrow>
          capture_screen_over cands ts lfo st
            = Some (Inr (None, None), stm\<lparr>printed := printed stm @ [le]\<rparr>))"
proof (intro conjI impI)
  assume "length answers = length pre
            \<and> (\<forall>(opc, cat) \<in> set answers. \<not> contains (strip cat) (remote_name ts))
            \<and> pending r = skipped_script answers @ script"
  then show "failing_rounds ts lf None pre st
            = Some (None, st\<lparr>sa := Some (r\<lparr>pending := script,
                sent := sent r @ concat (map (\<lambda>(subdir, desc). round_log (timeout r) ts subdir) pre)\<rparr>)\<rparr>)"
    using failing_rounds_absent[of answers pre ts st r script lf None] assms(1) by blast
next
  assume a: "failing_rounds ts lf None pre st = Some (le, stm)
            \<and> attempt ts lf subdir stm = Some (Returned l p, st')"
  then have "capture_loop ts lf None (pre @ (subdir, desc) # post) st = Some (Some (l, p), le, st')"
    by (simp add: capture_loop_failing)
  then show "capture_screen_over (pre @ (subdir, desc) # post) ts lfo st
            = Some (Inr (Some l, Some p), st')"
    using assms by (simp add: capture_screen_over_def)
  from a attempt_returned[of ts lf subdir stm l p st']
  show "l = lf" "p = remote_path ts subdir" "files st' lf \<noteq> None" by simp_all
next
  assume a: "failing_rounds ts lf None pre st = Some (le, stm)
            \<and> attempt ts lf subdir stm = Some (Caught e, st')"
  then have "capture_loop ts lf None (pre @ [(subdir, desc)]) st = Some (None, Some e, st')"
    by (simp add: capture_loop_failing)
  then show "capture_screen_over (pre @ [(subdir, desc)]) ts lfo st
            = Some (Inr (None, None), st'\<lparr>printed := printed st' @ [Some e]\<rparr>)"
    using assms by (simp add: capture_screen_over_def)
next
  assume "failing_rounds ts lf None cands st = Some (le, stm)"
  from capture_loop_failing[OF this, of "[]"]
  have "capture_loop ts lf None cands st = Some (None, le, stm)" by simp
  then show "capture_screen_over cands ts lfo st
            = Some (Inr (None, None), stm\<lparr>printed := printed stm @ [le]\<rparr>)"
    using assms by (simp add: capture_screen_over_def)
qed


lemmas round_defs = attempt_def wait_for_opc_def remote_name_def remote_path_def sep_def
  transfer_def fetch_file_def write_file_def read_ieee_block_def
  read_ieee_block_sa_def sa_read_bytes_def int_of_chr_def int_of_bytes_def unsigned_int_def
  strip_def is_space_def strip_int_blanks_def is_int_blank_def is_digit_def digit_val_def
  set_chunk_size_def getattr_chunk_size_def
  quoted_def write_cmd_def query_def sa_write_def sa_query_def exchange_def log_cmd_def
  set_timeout_def Let_def

theorem capture_screen_candidates_witness:
  "(\<exists>st'. capture_screen ''T'' None
            (connected_with (four_absent @
               [Ack, Text ''1'', Text ''a.PNG,Screenshot_T.PNG'', Ack,
                Bytes ''#13'', Bytes ''PNG'']))
          = Some (Inr (Some ''screenshot_T.png'', Some (remote_path ''T'' (''C:'' @ sep))), st')
        \<and> files st' ''screenshot_T.png'' \<noteq> None)
   \<and> (\<exists>st'. capture_screen ''T'' None
            (connected_with (four_absent @
               [Ack, Text ''1'', Text ''a.PNG,Screenshot_T.PNG'', Ack, Bytes ''X13'']))
          = Some (Inr (None, None), st')
        \<and> printed st' = [Some not_ieee])"
proof -
  define pre where "pre = butlast attempts"
  define answers :: "(string \<times> string) list"
    where "answers = [(''1'', []), (''1'', []), (''1'', ''old.PNG''), (''1'', [])]"
  define good where "good = [Ack, Text ''1'', Text ''a.PNG,Screenshot_T.PNG'', Ack,
                Bytes ''#13'', Bytes ''PNG'']"
  define bad where "bad = [Ack, Text ''1'', Text ''a.PNG,Screenshot_T.PNG'', Ack, Bytes ''X13'']"
  define mid where "mid script = (connected_with (four_absent @ script))
      \<lparr>sa := Some (\<lparr>timeout = 5000, chunk_size = Some 20480, pending = four_absent @ script,
                    sent = []\<rparr>
        \<lparr>pending := script,
          sent := [] @ concat (map (\<lambda>(subdir, desc). round_log 5000 ''T'' subdir) pre)\<rparr>)\<rparr>"
    for script
  have c: "sa (connected_with rs)
             = Some \<lparr>timeout = 5000, chunk_size = Some 20480, pending = rs, sent = []\<rparr>" for rs
    by (simp add: connected_with_def)
  have att: "attempts = pre @ [(''C:'' @ sep, ''root C drive'')]"
    by (simp add: pre_def attempts_def)
  have len: "length answers = length pre"
    by (simp add: answers_def pre_def attempts_def)
  have absent: "\<forall>(opc, cat) \<in> set answers. \<not> contains (strip cat) (remote_name ''T'')"
    by (simp add: answers_def strip_def is_space_def remote_name_def)
  have fr: "failing_rounds ''T'' ''screenshot_T.png'' None pre (connected_with (four_absent @ script))
              = Some (None, mid script)" for script
    using capture_screen_candidates
      [where st = "connected_with (four_absent @ script)" and lfo = None and ts = "''T''"
         and lf = "''screenshot_T.png''" and answers = answers and pre = pre
         and script = script, OF c, THEN conjunct1]
      len absent
    by (simp add: four_absent_def answers_def mid_def)
  have a1: "\<exists>st'. attempt ''T'' ''screenshot_T.png'' (''C:'' @ sep) (mid good)
              = Some (Returned ''screenshot_T.png'' (remote_path ''T'' (''C:'' @ sep)), st')"
    by (simp add: mid_def good_def connected_with_def round_defs read_payload.simps)
  have a2: "\<exists>st'. attempt ''T'' ''screenshot_T.png'' (''C:'' @ sep) (mid bad)
              = Some (Caught not_ieee, st') \<and> printed st' = []"
    by (simp add: mid_def bad_def connected_with_def round_defs)
  from a1 obtain s1 where s1: "attempt ''T'' ''screenshot_T.png'' (''C:'' @ sep) (mid good)
              = Some (Returned ''screenshot_T.png'' (remote_path ''T'' (''C:'' @ sep)), s1)" ..
  from a2 obtain s2 where s2: "attempt ''T'' ''screenshot_T.png'' (''C:'' @ sep) (mid bad)
              = Some (Caught not_ieee, s2)" "printed s2 = []" by blast
  from capture_screen_candidates
      [where st = "connected_with (four_absent @ good)" and lfo = None and ts = "''T''"
         and lf = "''screenshot_T.png''" and pre = pre and le = None and stm = "mid good"
         and subdir = "''C:'' @ sep" and desc = "''root C drive''" and post = "[]"
         and l = "''screenshot_T.png''" and p = "remote_path ''T'' (''C:'' @ sep)" and st' = s1,
       OF c, THEN conjunct2, THEN conjunct1] fr s1
  have g: "capture_screen ''T'' None (connected_with (four_absent @ good))
             = Some (Inr (Some ''screenshot_T.png'', Some (remote_path ''T'' (''C:'' @ sep))), s1)
           \<and> files s1 ''screenshot_T.png'' \<noteq> None"
    by (simp add: capture_screen_def att)
  from capture_screen_candidates
      [where st = "connected_with (four_absent @ bad)" and lfo = None and ts = "''T''"
         and lf = "''screenshot_T.png''" and pre = pre and le = None and stm = "mid bad"
         and subdir = "''C:'' @ sep" and desc = "''root C drive''"
         and e = not_ieee and st' = s2,
       OF c, THEN conjunct2, THEN conjunct2, THEN conjunct1] fr s2
  have b: "capture_screen ''T'' None (connected_with (four_absent @ bad))
             = Some (Inr (None, None), s2\<lparr>printed := printed s2 @ [Some not_ieee]\<rparr>)"
    by (simp add: capture_screen_def att)
  from g b s2(2) show ?thesis
    by (simp add: good_def bad_def)
qed

end
